(* ===== verification/Story_Prelude.thy ===== *)
theory Story_Prelude
  imports Main
begin

text \<open>
  Shared vocabulary of the user-story development: the names of the model's types,
  the error values every component may raise, a JSON value type for the data that
  crosses the LLM and HTTP boundaries, and the JavaScript operators the TypeScript
  sources use on optional values (\<open>||\<close>, \<open>??\<close>, truthiness,
  \<open>String.prototype.trim\<close>, \<open>Array.prototype.join\<close>, \<open>Array.from(new Set(xs))\<close>),
  each with the lemmas the component theories share.

  Strings are Isabelle \<open>string\<close>s read as UTF-8 byte sequences; a column declared
  \<open>varchar(255)\<close> is bounded in code points, counted by \<open>utf8_length\<close>.
\<close>

named_theorems js_simps \<open>evaluation rules of the JavaScript operators on optional values\<close>

type_synonym user_id = string
type_synonym row_id = nat
type_synonym timestamp = int

subsection \<open>Errors\<close>

text \<open>
  Everything the sources can throw: PostgreSQL constraint failures (raised by the
  driver inside a transaction, which then rolls back), a destructuring of an
  empty \<open>RETURNING\<close> list, a zod validation failure, \<open>JSON.parse\<close> on malformed
  text, and a failure of an external collaborator (the LLM runtime, the memory
  store).
\<close>

datatype db_error =
    ForeignKeyViolation string
  | UniqueViolation string
  | IntegerOutOfRange string
  | ValueTooLong string

datatype error =
    DbError db_error
  | TypeError string
  | ZodError string
  | JsonSyntaxError
  | ExternalError string

definition sbind :: "'e + 'a \<Rightarrow> ('a \<Rightarrow> 'e + 'b) \<Rightarrow> 'e + 'b" where
  "sbind m f = (case m of Inl e \<Rightarrow> Inl e | Inr a \<Rightarrow> f a)"

lemma sbind_Inl [simp]: "sbind (Inl e) f = Inl e"
  by (simp add: sbind_def)

lemma sbind_Inr [simp]: "sbind (Inr a) f = f a"
  by (simp add: sbind_def)

lemma sbind_eq_Inr: "sbind m f = Inr b \<longleftrightarrow> (\<exists>a. m = Inr a \<and> f a = Inr b)"
  by (cases m) simp_all

lemma sbind_eq_Inl: "sbind m f = Inl e \<longleftrightarrow> m = Inl e \<or> (\<exists>a. m = Inr a \<and> f a = Inl e)"
  by (cases m) simp_all

subsection \<open>JSON values\<close>

text \<open>
  A JSON value as \<open>JSON.parse\<close> returns it. Numbers are kept as integers: the code
  never computes with a parsed number, it only tests its truthiness (zero or not)
  and its type. An object is the list of its members in source order; a repeated
  key is read at its last occurrence, as \<open>JSON.parse\<close> keeps the last one.
\<close>

datatype json =
    JNull
  | JBool bool
  | JNum int
  | JStr string
  | JArr "json list"
  | JObj "(string \<times> json) list"

type_synonym metadata = "(string \<times> json) list"

definition obj_lookup :: "(string \<times> json) list \<Rightarrow> string \<Rightarrow> json option" where
  "obj_lookup kvs k = map_of (rev kvs) k"

text \<open>Property access \<open>v?.k\<close>: \<open>None\<close> stands for \<open>undefined\<close>.\<close>

fun js_get :: "json \<Rightarrow> string \<Rightarrow> json option" where
  "js_get (JObj kvs) k = obj_lookup kvs k"
| "js_get _ k = None"

fun js_truthy :: "json \<Rightarrow> bool" where
  "js_truthy JNull = False"
| "js_truthy (JBool b) = b"
| "js_truthy (JNum n) = (n \<noteq> 0)"
| "js_truthy (JStr s) = (s \<noteq> [])"
| "js_truthy (JArr _) = True"
| "js_truthy (JObj _) = True"

lemma obj_lookup_Nil [simp]: "obj_lookup [] k = None"
  by (simp add: obj_lookup_def)

lemma obj_lookup_distinct:
  "distinct (map fst kvs) \<Longrightarrow> obj_lookup kvs k = map_of kvs k"
proof -
  assume d: "distinct (map fst kvs)"
  then have "distinct (map fst (rev kvs))" by (simp add: rev_map [symmetric])
  with d have "map_of (rev kvs) = map_of kvs" by (simp add: map_of_inject_set)
  then show ?thesis by (simp add: obj_lookup_def)
qed

subsection \<open>Operators on optional values\<close>

text \<open>
  \<open>None\<close> stands for \<open>undefined\<close> or \<open>null\<close> wherever the code treats them alike.
  \<open>nullish_or a b\<close> is \<open>a ?? b\<close>; it is also how drizzle's \<open>.set()\<close> treats a
  column whose new value is \<open>undefined\<close>: the old value stays.
\<close>

definition nullish_or :: "'a option \<Rightarrow> 'a option \<Rightarrow> 'a option" where
  "nullish_or a b = (case a of Some v \<Rightarrow> Some v | None \<Rightarrow> b)"

text \<open>A column default: the value given, else the default.\<close>

definition opt_default :: "'a \<Rightarrow> 'a option \<Rightarrow> 'a" where
  "opt_default d x = (case x of None \<Rightarrow> d | Some v \<Rightarrow> v)"

definition truthy_str :: "string option \<Rightarrow> bool" where
  "truthy_str x = (case x of None \<Rightarrow> False | Some s \<Rightarrow> s \<noteq> [])"

definition nonempty_list :: "'a list option \<Rightarrow> bool" where
  "nonempty_list x = (case x of None \<Rightarrow> False | Some xs \<Rightarrow> xs \<noteq> [])"

text \<open>\<open>x || d\<close> on an optional string with a string default.\<close>

definition str_or :: "string option \<Rightarrow> string \<Rightarrow> string" where
  "str_or x d = (if truthy_str x then the x else d)"

text \<open>\<open>x || undefined\<close>: an empty string becomes \<open>undefined\<close>.\<close>

definition str_or_undef :: "string option \<Rightarrow> string option" where
  "str_or_undef x = (if truthy_str x then x else None)"

lemma nullish_or_simps [simp, js_simps]:
  "nullish_or (Some v) b = Some v" "nullish_or None b = b"
  by (simp_all add: nullish_or_def)

lemma opt_default_simps [simp, js_simps]:
  "opt_default d None = d" "opt_default d (Some v) = v"
  by (simp_all add: opt_default_def)

lemma truthy_str_simps [simp, js_simps]:
  "truthy_str None = False" "truthy_str (Some s) = (s \<noteq> [])"
  by (simp_all add: truthy_str_def)

lemma nonempty_list_simps [simp, js_simps]:
  "nonempty_list None = False" "nonempty_list (Some xs) = (xs \<noteq> [])"
  by (simp_all add: nonempty_list_def)

lemma str_or_simps [simp, js_simps]:
  "str_or None d = d" "str_or (Some s) d = (if s = [] then d else s)"
  by (simp_all add: str_or_def)

lemma str_or_undef_simps [simp, js_simps]:
  "str_or_undef None = None" "str_or_undef (Some s) = (if s = [] then None else Some s)"
  by (simp_all add: str_or_undef_def)

lemma str_or_nonempty: "d \<noteq> [] \<Longrightarrow> str_or x d \<noteq> []"
  by (cases x) simp_all

lemma nullish_or_None_iff: "nullish_or a b = None \<longleftrightarrow> a = None \<and> b = None"
  by (cases a) simp_all

subsection \<open>Strings\<close>

text \<open>
  The characters \<open>String.prototype.trim\<close> removes that a UTF-8 byte string can
  hold as single bytes: tab, line feed, vertical tab, form feed, carriage return
  and space. (The multi-byte white space of Unicode is not modelled.)
\<close>

definition js_ws :: "char \<Rightarrow> bool" where
  "js_ws c = (let n = of_char c :: nat in (9 \<le> n \<and> n \<le> 13) \<or> n = 32)"

definition js_trim :: "string \<Rightarrow> string" where
  "js_trim s = rev (dropWhile js_ws (rev (dropWhile js_ws s)))"

text \<open>The code points of a UTF-8 byte string: the bytes that are not continuation bytes.\<close>

definition utf8_length :: "string \<Rightarrow> nat" where
  "utf8_length s = length (filter (\<lambda>c. \<not> (128 \<le> (of_char c :: nat) \<and> (of_char c :: nat) < 192)) s)"

text \<open>
  \<open>s.length\<close>: UTF-16 code units, one per code point and two for a code point
  beyond the basic plane (a four-byte UTF-8 sequence, lead byte \<open>\<ge> 240\<close>).
\<close>

definition js_length :: "string \<Rightarrow> nat" where
  "js_length s = utf8_length s + length (filter (\<lambda>c. 240 \<le> (of_char c :: nat)) s)"

fun js_join :: "string \<Rightarrow> string list \<Rightarrow> string" where
  "js_join sep [] = []"
| "js_join sep [x] = x"
| "js_join sep (x # y # xs) = x @ sep @ js_join sep (y # xs)"

lemma js_trim_Nil [simp]: "js_trim [] = []"
  by (simp add: js_trim_def)

lemma dropWhile_hd_not: "dropWhile P xs = y # ys \<Longrightarrow> \<not> P y"
  by (metis dropWhile_eq_Cons_conv)

lemma js_trim_eq_Nil_iff: "js_trim s = [] \<longleftrightarrow> (\<forall>c \<in> set s. js_ws c)"
proof -
  have "js_trim s = [] \<longleftrightarrow> (\<forall>c \<in> set (dropWhile js_ws s). js_ws c)"
    by (simp add: js_trim_def)
  also have "\<dots> \<longleftrightarrow> dropWhile js_ws s = []"
    by (cases "dropWhile js_ws s") (auto dest: dropWhile_hd_not set_dropWhileD)
  also have "\<dots> \<longleftrightarrow> (\<forall>c \<in> set s. js_ws c)"
    by simp
  finally show ?thesis .
qed

lemma dropWhile_rev_last_not:
  assumes "dropWhile P (rev a) = b" "b \<noteq> []" "a \<noteq> []" "\<not> P (hd a)"
  shows "\<not> P (last b)"
proof -
  obtain p where "rev a = p @ b" using assms(1) by (metis takeWhile_dropWhile_id)
  then have "last b = last (rev a)" using assms(2) by (metis last_appendR)
  also have "\<dots> = hd a" using assms(3) by (simp add: last_rev)
  finally show ?thesis using assms(4) by simp
qed

lemma js_trim_idem: "js_trim (js_trim s) = js_trim s"
proof -
  define a where "a = dropWhile js_ws s"
  define b where "b = dropWhile js_ws (rev a)"
  have t: "js_trim s = rev b" by (simp add: js_trim_def a_def b_def)
  show ?thesis
  proof (cases "b = []")
    case True
    with t have "js_trim s = []" by simp
    then show ?thesis by simp
  next
    case False
    then have "a \<noteq> []" by (auto simp: b_def)
    then have "\<not> js_ws (hd a)"
      by (metis a_def dropWhile_hd_not list.collapse)
    then have nl: "\<not> js_ws (last b)"
      using False \<open>a \<noteq> []\<close> by (intro dropWhile_rev_last_not [OF b_def [symmetric]])
    have nh: "\<not> js_ws (hd b)"
      using False by (metis b_def dropWhile_hd_not list.collapse)
    have "dropWhile js_ws (rev b) = rev b"
      using nl False by (simp add: dropWhile_eq_self_iff hd_rev)
    moreover have "dropWhile js_ws b = b"
      using nh by (simp add: dropWhile_eq_self_iff)
    ultimately show ?thesis using t by (simp add: js_trim_def)
  qed
qed

text \<open>
  The first \<open>n\<close> code points of a UTF-8 byte string and the rest: a continuation
  byte belongs to the code point before it.
\<close>

definition utf8_cont :: "char \<Rightarrow> bool" where
  "utf8_cont c \<longleftrightarrow> 128 \<le> (of_char c :: nat) \<and> (of_char c :: nat) < 192"

fun utf8_take :: "nat \<Rightarrow> string \<Rightarrow> string" where
  "utf8_take n [] = []"
| "utf8_take n (c # cs) =
     (if utf8_cont c then c # utf8_take n cs
      else case n of 0 \<Rightarrow> [] | Suc m \<Rightarrow> c # utf8_take m cs)"

fun utf8_drop :: "nat \<Rightarrow> string \<Rightarrow> string" where
  "utf8_drop n [] = []"
| "utf8_drop n (c # cs) =
     (if utf8_cont c then utf8_drop n cs
      else case n of 0 \<Rightarrow> c # cs | Suc m \<Rightarrow> utf8_drop m cs)"

lemma utf8_length_Nil [simp]: "utf8_length [] = 0"
  by (simp add: utf8_length_def)

lemma utf8_length_Cons:
  "utf8_length (c # s) = (if utf8_cont c then utf8_length s else Suc (utf8_length s))"
  by (simp add: utf8_length_def utf8_cont_def)

lemma utf8_take_drop: "utf8_take n s @ utf8_drop n s = s"
  by (induction n s rule: utf8_take.induct) (auto split: nat.split)

lemma utf8_take_length: "utf8_length (utf8_take n s) \<le> n"
  by (induction n s rule: utf8_take.induct) (auto simp: utf8_length_Cons split: nat.split)

lemma utf8_drop_short: "utf8_length s \<le> n \<Longrightarrow> utf8_drop n s = []"
  by (induction n s rule: utf8_drop.induct) (auto simp: utf8_length_Cons split: nat.split if_splits)

lemma utf8_take_short: "utf8_length s \<le> n \<Longrightarrow> utf8_take n s = s"
  using utf8_take_drop [of n s] utf8_drop_short [of s n] by simp

lemma utf8_drop_ascii_prefix:
  "list_all (\<lambda>c. of_char c < (128::nat)) p \<Longrightarrow> utf8_drop (length p + n) (p @ s) = utf8_drop n s"
  by (induction p) (auto simp: utf8_cont_def)

lemma utf8_length_le: "utf8_length s \<le> length s"
  by (simp add: utf8_length_def)

lemma utf8_length_append [simp]: "utf8_length (s @ t) = utf8_length s + utf8_length t"
  by (simp add: utf8_length_def)

subsection \<open>\<open>Array.from(new Set(xs))\<close>\<close>

text \<open>
  A JavaScript \<open>Set\<close> keeps its elements in first-insertion order; spreading it
  back into an array gives each distinct element once, at its first occurrence.
  The model adds the elements one by one, as the \<open>Set\<close> constructor does, and is
  shown equal to the reference \<open>remdups_first\<close> (HOL's \<open>remdups\<close> keeps last
  occurrences, so the reference reverses around it).
\<close>

fun set_add_all :: "'a list \<Rightarrow> 'a list \<Rightarrow> 'a list" where
  "set_add_all acc [] = acc"
| "set_add_all acc (x # xs) = set_add_all (if x \<in> set acc then acc else acc @ [x]) xs"

definition array_from_set :: "'a list \<Rightarrow> 'a list" where
  "array_from_set xs = set_add_all [] xs"

definition remdups_first :: "'a list \<Rightarrow> 'a list" where
  "remdups_first xs = rev (remdups (rev xs))"

lemma remdups_append_dup:
  "x \<in> set ys \<Longrightarrow> remdups (as @ x # ys) = remdups (as @ ys)"
  by (induction as) auto

lemma remdups_first_dup:
  "x \<in> set ys \<Longrightarrow> remdups_first (ys @ x # zs) = remdups_first (ys @ zs)"
  by (simp add: remdups_first_def remdups_append_dup)

lemma remdups_first_distinct: "distinct ys \<Longrightarrow> remdups_first ys = ys"
  by (simp add: remdups_first_def distinct_remdups_id)

lemma set_add_all_remdups_first:
  "distinct acc \<Longrightarrow> set_add_all acc xs = remdups_first (acc @ xs)"
proof (induction xs arbitrary: acc)
  case Nil
  then show ?case by (simp add: remdups_first_distinct)
next
  case (Cons x xs)
  show ?case
  proof (cases "x \<in> set acc")
    case True
    with Cons show ?thesis by (simp add: remdups_first_dup)
  next
    case False
    with Cons.prems have "distinct (acc @ [x])" by simp
    with False Cons.IH show ?thesis by simp
  qed
qed

lemma remdups_first_set [simp]: "set (remdups_first xs) = set xs"
  by (simp add: remdups_first_def)

lemma remdups_first_distinct_result [simp]: "distinct (remdups_first xs)"
  by (simp add: remdups_first_def)

lemma remdups_first_filter: "remdups_first (filter P xs) = filter P (remdups_first xs)"
  by (simp add: remdups_first_def remdups_filter rev_filter)

subsection \<open>Lists\<close>

lemma filter_key_singleton:
  "distinct (map k xs) \<Longrightarrow> x \<in> set xs \<Longrightarrow> filter (\<lambda>y. k y = k x) xs = [x]"
proof (induction xs)
  case Nil then show ?case by simp
next
  case (Cons a xs)
  show ?case
  proof (cases "a = x")
    case True
    with Cons.prems have "\<forall>y \<in> set xs. k y \<noteq> k x" by (auto simp: image_iff)
    with True show ?thesis by (simp add: filter_empty_conv)
  next
    case False
    with Cons have "k a \<noteq> k x" by (auto simp: image_iff)
    with False Cons show ?thesis by simp
  qed
qed

lemma distinct_map_eqD:
  "distinct (map k xs) \<Longrightarrow> x \<in> set xs \<Longrightarrow> y \<in> set xs \<Longrightarrow> k x = k y \<Longrightarrow> x = y"
  by (metis distinct_map inj_onD)

lemma filter_map_keep:
  "\<forall>x \<in> set xs. P (g x) = P x \<and> (P x \<longrightarrow> g x = x) \<Longrightarrow> filter P (map g xs) = filter P xs"
  by (induction xs) auto

lemma find_filter: "List.find P xs = (case filter P xs of [] \<Rightarrow> None | x # _ \<Rightarrow> Some x)"
  by (induction xs) auto

lemma distinct_all_eq_length:
  assumes "distinct xs" "\<forall>x \<in> set xs. \<forall>y \<in> set xs. x = y"
  shows "length xs \<le> 1"
proof (cases xs)
  case (Cons a ys)
  with assms(2) have "set xs \<subseteq> {a}" by auto
  then have "card (set xs) \<le> card {a}" by (rule card_mono [rotated]) simp
  with assms(1) show ?thesis by (simp add: distinct_card)
qed simp

end
