(* ===== verification/Story_Schema.thy ===== *)
theory Story_Schema
  imports Story_Prelude
begin

text \<open>
  The two tables of \<open>packages/database/src/schemas/userMemories/story.ts\<close>
  (\<open>user_memory_story_documents\<close>, \<open>user_memory_story_diffs\<close>) as records, the
  database state that holds them beside the \<open>users\<close> table, and the row-level
  primitives the ORM issues (\<open>INSERT\<close>, \<open>UPDATE ... RETURNING\<close>, the cascade of
  \<open>DELETE\<close> on \<open>users\<close>), each checking the constraints the schema declares:
  \<open>varchar(255)\<close> on the title, the 32-bit \<open>integer\<close> columns, the foreign keys
  and the unique index on \<open>user_id\<close>. A violated constraint is an error value.

  Generated ids (\<open>createNanoId(18)\<close>) are drawn from a counter, so they are fresh by
  construction; the clock \<open>db_now\<close> is the time both \<open>new Date()\<close> and
  \<open>defaultNow()\<close> read.
\<close>

record story_document =
  doc_id :: row_id
  doc_userId :: "user_id option"
  doc_title :: "string option"
  doc_summary :: "string option"
  doc_story :: "string option"
  doc_reasoning :: "string option"
  doc_memoryIds :: "string list option"
  doc_sourceIds :: "string list option"
  doc_metadata :: "metadata option"
  doc_version :: int
  doc_capturedAt :: timestamp
  doc_createdAt :: timestamp
  doc_updatedAt :: timestamp

record story_diff =
  diff_id :: row_id
  diff_userId :: "user_id option"
  diff_storyId :: "row_id option"
  diff_diff :: "string option"
  diff_snapshot :: "string option"
  diff_summary :: "string option"
  diff_reasoning :: "string option"
  diff_memoryIds :: "string list option"
  diff_sourceIds :: "string list option"
  diff_metadata :: "metadata option"
  diff_previousVersion :: "int option"
  diff_nextVersion :: "int option"
  diff_capturedAt :: timestamp
  diff_createdAt :: timestamp
  diff_updatedAt :: timestamp

record story_db =
  db_users :: "user_id list"
  db_documents :: "story_document list"
  db_diffs :: "story_diff list"
  db_next_id :: row_id
  db_now :: timestamp

subsection \<open>Column constraints\<close>

definition int4_max :: int where
  "int4_max = 2147483647"

definition int4_ok :: "int \<Rightarrow> bool" where
  "int4_ok v \<longleftrightarrow> - int4_max - 1 \<le> v \<and> v \<le> int4_max"

text \<open>
  \<open>varchar(n)\<close> in PostgreSQL: a value of more than \<open>n\<close> characters is an error,
  unless every character past the \<open>n\<close>-th is a space, in which case the value is
  truncated to \<open>n\<close> characters and stored.
\<close>

definition varchar_fits :: "nat \<Rightarrow> string \<Rightarrow> bool" where
  "varchar_fits n s \<longleftrightarrow> list_all (\<lambda>c. c = CHR '' '') (utf8_drop n s)"

definition varchar255_ok :: "string option \<Rightarrow> bool" where
  "varchar255_ok x = (case x of None \<Rightarrow> True | Some s \<Rightarrow> varchar_fits 255 s)"

text \<open>The title PostgreSQL stores for an accepted value.\<close>

definition store_title :: "string option \<Rightarrow> string option" where
  "store_title x = map_option (utf8_take 255) x"

definition int4_opt_ok :: "int option \<Rightarrow> bool" where
  "int4_opt_ok x = (case x of None \<Rightarrow> True | Some v \<Rightarrow> int4_ok v)"

text \<open>A foreign key accepts \<open>NULL\<close> and any key present in the referenced table.\<close>

definition fk_ok :: "'a list \<Rightarrow> 'a option \<Rightarrow> bool" where
  "fk_ok keys x = (case x of None \<Rightarrow> True | Some k \<Rightarrow> k \<in> set keys)"

lemma varchar255_ok_simps [simp]:
  "varchar255_ok None" "varchar255_ok (Some s) \<longleftrightarrow> varchar_fits 255 s"
  by (simp_all add: varchar255_ok_def)

lemma varchar_fits_short: "utf8_length s \<le> n \<Longrightarrow> varchar_fits n s"
  by (simp add: varchar_fits_def utf8_drop_short)

lemma store_title_simps [simp]:
  "store_title None = None" "store_title (Some s) = Some (utf8_take 255 s)"
  by (simp_all add: store_title_def)

lemma store_title_short:
  "pred_option (\<lambda>s. utf8_length s \<le> 255) x \<Longrightarrow> store_title x = x"
  by (cases x) (simp_all add: utf8_take_short)

lemma store_title_length: "pred_option (\<lambda>s. utf8_length s \<le> 255) (store_title x)"
  by (cases x) (simp_all add: utf8_take_length)

lemma int4_opt_ok_simps [simp]:
  "int4_opt_ok None" "int4_opt_ok (Some v) \<longleftrightarrow> int4_ok v"
  by (simp_all add: int4_opt_ok_def)

lemma fk_ok_simps [simp]:
  "fk_ok keys None" "fk_ok keys (Some k) \<longleftrightarrow> k \<in> set keys"
  by (simp_all add: fk_ok_def)

lemma int4_ok_succ: "1 \<le> v \<Longrightarrow> int4_ok (v + 1) \<longleftrightarrow> v < int4_max"
  by (auto simp: int4_ok_def int4_max_def)

lemma int4_ok_one [simp]: "int4_ok 1"
  by (simp add: int4_ok_def int4_max_def)

subsection \<open>Row primitives\<close>

definition fresh_id :: "story_db \<Rightarrow> row_id \<times> story_db" where
  "fresh_id db = (db_next_id db, db\<lparr>db_next_id := Suc (db_next_id db)\<rparr>)"

text \<open>The checks PostgreSQL makes on a row of \<open>user_memory_story_documents\<close>.\<close>

text \<open>The row PostgreSQL stores: the title coerced to \<open>varchar(255)\<close>.\<close>

definition store_document :: "story_document \<Rightarrow> story_document" where
  "store_document d = d\<lparr>doc_title := store_title (doc_title d)\<rparr>"

definition check_document :: "story_db \<Rightarrow> story_document \<Rightarrow> db_error option" where
  "check_document db d =
     (if \<not> varchar255_ok (doc_title d) then Some (ValueTooLong ''title'')
      else if \<not> int4_ok (doc_version d) then Some (IntegerOutOfRange ''version'')
      else if \<not> fk_ok (db_users db) (doc_userId d)
        then Some (ForeignKeyViolation ''user_memory_story_documents_user_id_users_id_fk'')
      else None)"

text \<open>\<open>INSERT ... RETURNING *\<close>: the stored row and the new state.\<close>

definition insert_document ::
  "story_document \<Rightarrow> story_db \<Rightarrow> db_error + (story_document \<times> story_db)" where
  "insert_document d db =
     (case check_document db d of
        Some e \<Rightarrow> Inl e
      | None \<Rightarrow>
          if doc_userId d \<noteq> None \<and> (\<exists>e \<in> set (db_documents db). doc_userId e = doc_userId d)
          then Inl (UniqueViolation ''user_story_documents_user_id_unique'')
          else Inr (store_document d, db\<lparr>db_documents := db_documents db @ [store_document d]\<rparr>))"

text \<open>
  \<open>UPDATE ... SET ... WHERE ... RETURNING *\<close>: the rows that match, updated, in table
  order, as stored. The statements of the code never write \<open>user_id\<close>, so the
  unique index is not re-checked here.
\<close>

definition update_documents ::
  "(story_document \<Rightarrow> bool) \<Rightarrow> (story_document \<Rightarrow> story_document) \<Rightarrow> story_db \<Rightarrow>
   db_error + (story_document list \<times> story_db)" where
  "update_documents P f db =
     (let rows = map (\<lambda>d. if P d then store_document (f d) else d) (db_documents db);
          changed = map f (filter P (db_documents db))
      in case List.find (\<lambda>d. check_document db d \<noteq> None) changed of
           Some d \<Rightarrow> Inl (the (check_document db d))
         | None \<Rightarrow> Inr (map store_document changed, db\<lparr>db_documents := rows\<rparr>))"

definition check_diff :: "story_db \<Rightarrow> story_diff \<Rightarrow> db_error option" where
  "check_diff db d =
     (if \<not> int4_opt_ok (diff_previousVersion d) then Some (IntegerOutOfRange ''previous_version'')
      else if \<not> int4_opt_ok (diff_nextVersion d) then Some (IntegerOutOfRange ''next_version'')
      else if \<not> fk_ok (db_users db) (diff_userId d)
        then Some (ForeignKeyViolation ''user_memory_story_diffs_user_id_users_id_fk'')
      else if \<not> fk_ok (map doc_id (db_documents db)) (diff_storyId d)
        then Some (ForeignKeyViolation ''user_memory_story_diffs_story_id_fk'')
      else None)"

definition insert_diff :: "story_diff \<Rightarrow> story_db \<Rightarrow> db_error + story_db" where
  "insert_diff d db =
     (case check_diff db d of
        Some e \<Rightarrow> Inl e
      | None \<Rightarrow> Inr (db\<lparr>db_diffs := db_diffs db @ [d]\<rparr>))"

text \<open>
  \<open>DELETE FROM users WHERE id = u\<close>: the cascades of the schema remove the user's
  documents and diffs (\<open>user_id ... onDelete: 'cascade'\<close>) and the diffs of the
  removed documents (\<open>story_id ... onDelete: 'cascade'\<close>).
\<close>

definition delete_user :: "user_id \<Rightarrow> story_db \<Rightarrow> story_db" where
  "delete_user u db =
     (let gone = map doc_id (filter (\<lambda>d. doc_userId d = Some u) (db_documents db))
      in db\<lparr>db_users := filter (\<lambda>x. x \<noteq> u) (db_users db),
            db_documents := filter (\<lambda>d. doc_userId d \<noteq> Some u) (db_documents db),
            db_diffs := filter (\<lambda>f. diff_userId f \<noteq> Some u \<and>
                                     (\<forall>i \<in> set gone. diff_storyId f \<noteq> Some i)) (db_diffs db)\<rparr>)"

lemma store_document_fields [simp]:
  "doc_id (store_document d) = doc_id d" "doc_userId (store_document d) = doc_userId d"
  "doc_version (store_document d) = doc_version d" "doc_story (store_document d) = doc_story d"
  "doc_title (store_document d) = store_title (doc_title d)"
  "doc_summary (store_document d) = doc_summary d" "doc_reasoning (store_document d) = doc_reasoning d"
  "doc_memoryIds (store_document d) = doc_memoryIds d" "doc_sourceIds (store_document d) = doc_sourceIds d"
  "doc_createdAt (store_document d) = doc_createdAt d"
  by (simp_all add: store_document_def)

end
