(* ===== verification/Story_Model.thy ===== *)
theory Story_Model
  imports Story_Schema "HOL-Library.Product_Lexorder"
begin

text \<open>
  \<open>UserStoryModel\<close> of \<open>packages/database/src/models/userMemory/story.ts\<close>: the
  read queries \<open>getLatestStoryDocument\<close> and \<open>listDiffs\<close>, \<open>appendDiff\<close>, and the
  transactional \<open>upsertStory\<close>, which reads the user's document, writes version
  \<open>existing.version + 1\<close> by \<open>UPDATE\<close> or \<open>INSERT\<close>, and appends a diff row when
  the parameters carry diff content. A transaction is a function from the state
  to an error or a result with the new state: on an error the caller keeps the
  state it had, which is the rollback.

  The lemmas show the invariant of the two tables that every upsert keeps (one
  document per user, versions in range, each diff tied to its document with
  linked versions and no version recorded twice), the exact behaviour of an
  upsert on each branch, its errors, and that it refines an abstract versioned
  store.
\<close>

record upsert_params =
  up_capturedAt :: "timestamp option"
  up_diff :: "string option"
  up_memoryIds :: "string list option"
  up_metadata :: "metadata option"
  up_reasoning :: "string option"
  up_snapshot :: "string option"
  up_sourceIds :: "string list option"
  up_story :: string
  up_summary :: "string option"
  up_title :: "string option"

record upsert_result =
  res_diff :: "story_diff option"
  res_document :: "story_document option"

subsection \<open>Queries\<close>

definition getLatestStoryDocument :: "user_id \<Rightarrow> story_db \<Rightarrow> story_document option" where
  "getLatestStoryDocument uid db =
     (case sort_key (\<lambda>d. (- doc_version d, - doc_updatedAt d))
             (filter (\<lambda>d. doc_userId d = Some uid) (db_documents db)) of
        [] \<Rightarrow> None
      | d # _ \<Rightarrow> Some d)"

definition listDiffs :: "user_id \<Rightarrow> nat \<Rightarrow> story_db \<Rightarrow> story_diff list" where
  "listDiffs uid limit db =
     take limit (sort_key (\<lambda>d. - diff_createdAt d)
       (filter (\<lambda>d. diff_userId d = Some uid) (db_diffs db)))"

definition appendDiff :: "user_id \<Rightarrow> story_diff \<Rightarrow> story_db \<Rightarrow> error + (story_diff \<times> story_db)" where
  "appendDiff uid params db =
     (let (i, db1) = fresh_id db;
          d = params\<lparr>diff_id := i, diff_userId := Some uid\<rparr>
      in case insert_diff d db1 of
           Inl e \<Rightarrow> Inl (DbError e)
         | Inr db2 \<Rightarrow> Inr (d, db2))"

subsection \<open>upsertStory\<close>

text \<open>\<open>tx.query.userStoryDocuments.findFirst({ where: eq(userId, this.userId) })\<close>.\<close>

definition find_user_document :: "user_id \<Rightarrow> story_db \<Rightarrow> story_document option" where
  "find_user_document uid db = List.find (\<lambda>d. doc_userId d = Some uid) (db_documents db)"

definition next_version :: "story_document option \<Rightarrow> int" where
  "next_version existing = (case existing of None \<Rightarrow> 0 | Some e \<Rightarrow> doc_version e) + 1"

text \<open>The \<open>hasDiff\<close> test, with JavaScript truthiness.\<close>

definition has_diff :: "upsert_params \<Rightarrow> bool" where
  "has_diff p \<longleftrightarrow>
     truthy_str (up_diff p) \<or> truthy_str (up_snapshot p) \<or> truthy_str (up_reasoning p) \<or>
     nonempty_list (up_memoryIds p) \<or> nonempty_list (up_sourceIds p)"

text \<open>
  The row the \<open>INSERT\<close> branch writes: \<open>baseDocument\<close> with \<open>userId\<close>; a field
  that is \<open>undefined\<close> takes the column default (\<open>NULL\<close>, or the current time).
\<close>

definition new_document ::
  "user_id \<Rightarrow> upsert_params \<Rightarrow> int \<Rightarrow> row_id \<Rightarrow> timestamp \<Rightarrow> story_document" where
  "new_document uid p v i now =
     \<lparr>doc_id = i, doc_userId = Some uid, doc_title = up_title p, doc_summary = up_summary p,
      doc_story = Some (up_story p), doc_reasoning = up_reasoning p,
      doc_memoryIds = up_memoryIds p, doc_sourceIds = up_sourceIds p,
      doc_metadata = up_metadata p, doc_version = v,
      doc_capturedAt = opt_default now (up_capturedAt p),
      doc_createdAt = now, doc_updatedAt = now\<rparr>"

text \<open>
  The \<open>UPDATE\<close> branch: \<open>.set({ ...baseDocument, updatedAt: new Date() })\<close>. Drizzle
  leaves a column whose value is \<open>undefined\<close> out of the \<open>SET\<close> list, so such a
  column keeps its old value.
\<close>

definition updated_document ::
  "upsert_params \<Rightarrow> int \<Rightarrow> timestamp \<Rightarrow> story_document \<Rightarrow> story_document" where
  "updated_document p v now e =
     e\<lparr>doc_title := nullish_or (up_title p) (doc_title e),
       doc_summary := nullish_or (up_summary p) (doc_summary e),
       doc_story := Some (up_story p),
       doc_reasoning := nullish_or (up_reasoning p) (doc_reasoning e),
       doc_memoryIds := nullish_or (up_memoryIds p) (doc_memoryIds e),
       doc_sourceIds := nullish_or (up_sourceIds p) (doc_sourceIds e),
       doc_metadata := nullish_or (up_metadata p) (doc_metadata e),
       doc_version := v,
       doc_capturedAt := opt_default (doc_capturedAt e) (up_capturedAt p),
       doc_updatedAt := now\<rparr>"

text \<open>The diff row of the \<open>hasDiff\<close> branch.\<close>

definition new_diff ::
  "user_id \<Rightarrow> upsert_params \<Rightarrow> story_document option \<Rightarrow> story_document \<Rightarrow> row_id \<Rightarrow>
   timestamp \<Rightarrow> story_diff" where
  "new_diff uid p existing d i now =
     \<lparr>diff_id = i, diff_userId = Some uid, diff_storyId = Some (doc_id d),
      diff_diff = up_diff p, diff_snapshot = nullish_or (up_snapshot p) (Some (up_story p)),
      diff_summary = up_summary p, diff_reasoning = up_reasoning p,
      diff_memoryIds = up_memoryIds p, diff_sourceIds = up_sourceIds p,
      diff_metadata = up_metadata p,
      diff_previousVersion = map_option doc_version existing,
      diff_nextVersion = Some (doc_version d),
      diff_capturedAt = opt_default now (up_capturedAt p),
      diff_createdAt = now, diff_updatedAt = now\<rparr>"

text \<open>
  The document write: \<open>[document] = await tx.update(...).returning()\<close> or
  \<open>tx.insert(...).returning()\<close>. An \<open>UPDATE\<close> that matches no row leaves
  \<open>document\<close> \<open>undefined\<close>.
\<close>

definition write_document ::
  "user_id \<Rightarrow> upsert_params \<Rightarrow> story_document option \<Rightarrow> story_db \<Rightarrow>
   error + (story_document option \<times> story_db)" where
  "write_document uid p existing db =
     (let v = next_version existing in
      case existing of
        Some e \<Rightarrow>
          (case update_documents (\<lambda>d. doc_id d = doc_id e \<and> doc_userId d = Some uid)
                  (updated_document p v (db_now db)) db of
             Inl err \<Rightarrow> Inl (DbError err)
           | Inr (rows, db1) \<Rightarrow> Inr (case rows of [] \<Rightarrow> None | d # _ \<Rightarrow> Some d, db1))
      | None \<Rightarrow>
          (let (i, db1) = fresh_id db; d = new_document uid p v i (db_now db)
           in case insert_document d db1 of
                Inl err \<Rightarrow> Inl (DbError err)
              | Inr (row, db2) \<Rightarrow> Inr (Some row, db2)))"

definition append_story_diff ::
  "user_id \<Rightarrow> upsert_params \<Rightarrow> story_document option \<Rightarrow> story_document option \<Rightarrow>
   story_db \<Rightarrow> error + (upsert_result \<times> story_db)" where
  "append_story_diff uid p existing doc db =
     (if has_diff p then
        (case doc of
           None \<Rightarrow> Inl (TypeError ''Cannot read properties of undefined (reading version)'')
         | Some d \<Rightarrow>
             (let (i, db1) = fresh_id db; f = new_diff uid p existing d i (db_now db)
              in case insert_diff f db1 of
                   Inl err \<Rightarrow> Inl (DbError err)
                 | Inr db2 \<Rightarrow> Inr (\<lparr>res_diff = Some f, res_document = doc\<rparr>, db2)))
      else Inr (\<lparr>res_diff = None, res_document = doc\<rparr>, db))"

definition upsertStory ::
  "user_id \<Rightarrow> upsert_params \<Rightarrow> story_db \<Rightarrow> error + (upsert_result \<times> story_db)" where
  "upsertStory uid p db =
     (let existing = find_user_document uid db
      in sbind (write_document uid p existing db)
           (\<lambda>(doc, db1). append_story_diff uid p existing doc db1))"

subsection \<open>The invariant of the two tables\<close>

text \<open>
  What the schema and the upsert keep true together: primary keys distinct, every
  document owned by an existing user with a version in \<open>1..int4_max\<close> (the
  unique index on \<open>user_id\<close> as "one document per user"), every diff tied to a
  document of the same user, its \<open>nextVersion\<close> at most the document's version and
  its \<open>previousVersion\<close> one less (absent for version 1), and no two diffs of one
  document recording the same \<open>nextVersion\<close>.
\<close>

definition doc_wf :: "story_db \<Rightarrow> story_document \<Rightarrow> bool" where
  "doc_wf db d \<longleftrightarrow>
     doc_id d < db_next_id db \<and> (\<exists>u. doc_userId d = Some u \<and> u \<in> set (db_users db)) \<and>
     1 \<le> doc_version d \<and> int4_ok (doc_version d) \<and>
     pred_option (\<lambda>s. utf8_length s \<le> 255) (doc_title d)"

definition diff_versions_ok :: "story_diff \<Rightarrow> int \<Rightarrow> bool" where
  "diff_versions_ok f cur \<longleftrightarrow>
     (\<exists>v. diff_nextVersion f = Some v \<and> 1 \<le> v \<and> v \<le> cur \<and>
          diff_previousVersion f = (if v = 1 then None else Some (v - 1)))"

definition diff_wf :: "story_db \<Rightarrow> story_diff \<Rightarrow> bool" where
  "diff_wf db f \<longleftrightarrow>
     diff_id f < db_next_id db \<and>
     (\<exists>d \<in> set (db_documents db). diff_storyId f = Some (doc_id d) \<and>
        diff_userId f = doc_userId d \<and> diff_versions_ok f (doc_version d))"

definition story_db_wf :: "story_db \<Rightarrow> bool" where
  "story_db_wf db \<longleftrightarrow>
     distinct (map doc_id (db_documents db)) \<and> distinct (map diff_id (db_diffs db)) \<and>
     (\<forall>d \<in> set (db_documents db). doc_wf db d) \<and>
     (\<forall>d1 \<in> set (db_documents db). \<forall>d2 \<in> set (db_documents db).
        doc_userId d1 = doc_userId d2 \<longrightarrow> d1 = d2) \<and>
     (\<forall>f \<in> set (db_diffs db). diff_wf db f) \<and>
     (\<forall>f1 \<in> set (db_diffs db). \<forall>f2 \<in> set (db_diffs db).
        diff_storyId f1 = diff_storyId f2 \<and> diff_nextVersion f1 = diff_nextVersion f2 \<longrightarrow> f1 = f2)"

definition upsert_written :: "user_id \<Rightarrow> upsert_params \<Rightarrow> story_db \<Rightarrow> story_document \<times> story_db" where
  "upsert_written uid p db =
     (case find_user_document uid db of
        None \<Rightarrow>
          (store_document (new_document uid p 1 (db_next_id db) (db_now db)),
           db\<lparr>db_next_id := Suc (db_next_id db),
              db_documents := db_documents db @ [store_document (new_document uid p 1 (db_next_id db) (db_now db))]\<rparr>)
      | Some e \<Rightarrow>
          (store_document (updated_document p (doc_version e + 1) (db_now db) e),
           db\<lparr>db_documents := map (\<lambda>x. if doc_id x = doc_id e
                 then store_document (updated_document p (doc_version e + 1) (db_now db) x) else x) (db_documents db)\<rparr>))"

definition upsert_fails :: "user_id \<Rightarrow> upsert_params \<Rightarrow> story_db \<Rightarrow> bool" where
  "upsert_fails uid p db \<longleftrightarrow>
     \<not> varchar255_ok (up_title p) \<or>
     (find_user_document uid db = None \<and> uid \<notin> set (db_users db)) \<or>
     int4_max < next_version (find_user_document uid db)"


subsection \<open>An abstract versioned store\<close>

text \<open>
  What \<open>upsertStory\<close> promises, seen per user: the current version number and story.
  A commit of story \<open>s\<close> for user \<open>u\<close> bumps \<open>u\<close>'s version by one (from 0 when
  \<open>u\<close> had none) and leaves every other user alone.
\<close>

definition story_abs :: "story_db \<Rightarrow> user_id \<Rightarrow> (int \<times> string option) option" where
  "story_abs db u = map_option (\<lambda>d. (doc_version d, doc_story d)) (find_user_document u db)"

definition abs_commit ::
  "user_id \<Rightarrow> string \<Rightarrow> (user_id \<Rightarrow> (int \<times> string option) option) \<Rightarrow> user_id \<Rightarrow> (int \<times> string option) option" where
  "abs_commit u s A = A(u \<mapsto> ((case A u of None \<Rightarrow> 0 | Some (v, _) \<Rightarrow> v) + 1, Some s))"

text \<open>The version number of a user's story in the abstract store, 0 when there is none.\<close>

definition story_version :: "story_db \<Rightarrow> user_id \<Rightarrow> int" where
  "story_version db u = (case story_abs db u of None \<Rightarrow> 0 | Some (v, _) \<Rightarrow> v)"

subsection \<open>The database as a state machine\<close>

text \<open>
  The steps the story tables take: an \<open>upsertStory\<close> transaction of any user, and the
  environment's steps the schema allows beside it (a user row inserted, a user row
  deleted with its cascades, the clock advancing). \<open>appendDiff\<close> is not a step:
  nothing under \<open>src/\<close> calls it.
\<close>

definition insert_user :: "user_id \<Rightarrow> story_db \<Rightarrow> story_db" where
  "insert_user u db = db\<lparr>db_users := db_users db @ [u]\<rparr>"

definition set_clock :: "timestamp \<Rightarrow> story_db \<Rightarrow> story_db" where
  "set_clock t db = db\<lparr>db_now := t\<rparr>"

inductive story_step :: "story_db \<Rightarrow> story_db \<Rightarrow> bool" where
  upsert: "upsertStory uid p db = Inr (r, db') \<Longrightarrow> story_step db db'"
| add_user: "u \<notin> set (db_users db) \<Longrightarrow> story_step db (insert_user u db)"
| remove_user: "story_step db (delete_user u db)"
| tick: "db_now db \<le> t \<Longrightarrow> story_step db (set_clock t db)"

definition story_init :: "story_db \<Rightarrow> bool" where
  "story_init db \<longleftrightarrow> db_users db = [] \<and> db_documents db = [] \<and> db_diffs db = []"

definition story_reachable :: "story_db \<Rightarrow> bool" where
  "story_reachable db \<longleftrightarrow> (\<exists>db0. story_init db0 \<and> story_step\<^sup>*\<^sup>* db0 db)"


subsection \<open>Lemmas\<close>

text \<open>Executable forms of the invariant's quantified parts, for evaluation.\<close>

lemma doc_wf_code [code]:
  "doc_wf db d \<longleftrightarrow>
     doc_id d < db_next_id db \<and>
     (case doc_userId d of None \<Rightarrow> False | Some u \<Rightarrow> u \<in> set (db_users db)) \<and>
     1 \<le> doc_version d \<and> int4_ok (doc_version d) \<and>
     (case doc_title d of None \<Rightarrow> True | Some s \<Rightarrow> utf8_length s \<le> 255)"
  by (auto simp: doc_wf_def split: option.splits)

lemma diff_versions_ok_code [code]:
  "diff_versions_ok f cur \<longleftrightarrow>
     (case diff_nextVersion f of None \<Rightarrow> False
      | Some v \<Rightarrow> 1 \<le> v \<and> v \<le> cur \<and> diff_previousVersion f = (if v = 1 then None else Some (v - 1)))"
  by (auto simp: diff_versions_ok_def split: option.splits)

lemma find_user_document_Some:
  "find_user_document uid db = Some e \<Longrightarrow> e \<in> set (db_documents db) \<and> doc_userId e = Some uid"
  by (auto simp: find_user_document_def find_Some_iff nth_mem)

lemma find_user_document_None:
  "find_user_document uid db = None \<longleftrightarrow> (\<forall>d \<in> set (db_documents db). doc_userId d \<noteq> Some uid)"
  by (auto simp: find_user_document_def find_None_iff)

lemma find_user_document_wf:
  assumes "story_db_wf db" "d \<in> set (db_documents db)" "doc_userId d = Some uid"
  shows "find_user_document uid db = Some d"
proof -
  obtain e where "find_user_document uid db = Some e"
    using assms(2,3) find_user_document_None by (cases "find_user_document uid db") auto
  moreover from this have "e = d"
    using assms find_user_document_Some unfolding story_db_wf_def by metis
  ultimately show ?thesis by simp
qed

text \<open>The update branch writes exactly the found row.\<close>

lemma update_documents_one:
  assumes wf: "story_db_wf db" and e: "e \<in> set (db_documents db)"
    and P: "\<And>d. d \<in> set (db_documents db) \<Longrightarrow> P d \<longleftrightarrow> doc_id d = doc_id e"
  shows "update_documents P f db =
           (case check_document db (f e) of Some err \<Rightarrow> Inl err
            | None \<Rightarrow> Inr ([store_document (f e)],
                db\<lparr>db_documents := map (\<lambda>d. if doc_id d = doc_id e then store_document (f d) else d) (db_documents db)\<rparr>))"
proof -
  have dist: "distinct (map doc_id (db_documents db))" using wf by (simp add: story_db_wf_def)
  have "filter P (db_documents db) = filter (\<lambda>d. doc_id d = doc_id e) (db_documents db)"
    using P by (rule filter_cong [OF refl])
  also have "\<dots> = [e]"
    using dist e by (rule filter_key_singleton)
  finally have fl: "filter P (db_documents db) = [e]" .
  have mp: "map (\<lambda>d. if P d then store_document (f d) else d) (db_documents db) =
            map (\<lambda>d. if doc_id d = doc_id e then store_document (f d) else d) (db_documents db)"
    using P by (auto intro: map_cong)
  show ?thesis
    by (cases "check_document db (f e)") (simp_all add: update_documents_def fl mp)
qed
lemma append_story_diff_Some:
  assumes "doc_id d \<in> set (map doc_id (db_documents db))" "uid \<in> set (db_users db)"
    "int4_opt_ok (map_option doc_version existing)" "int4_ok (doc_version d)"
  shows "append_story_diff uid p existing (Some d) db =
    (if has_diff p then
       Inr (\<lparr>res_diff = Some (new_diff uid p existing d (db_next_id db) (db_now db)), res_document = Some d\<rparr>,
            db\<lparr>db_next_id := Suc (db_next_id db),
               db_diffs := db_diffs db @ [new_diff uid p existing d (db_next_id db) (db_now db)]\<rparr>)
     else Inr (\<lparr>res_diff = None, res_document = Some d\<rparr>, db))"
  using assms
  by (simp add: append_story_diff_def fresh_id_def insert_diff_def check_diff_def new_diff_def Let_def)

lemma upsertStory_insert:
  assumes "find_user_document uid db = None"
  shows "upsertStory uid p db =
    (if \<not> varchar255_ok (up_title p) then Inl (DbError (ValueTooLong ''title''))
     else if uid \<notin> set (db_users db)
       then Inl (DbError (ForeignKeyViolation ''user_memory_story_documents_user_id_users_id_fk''))
     else append_story_diff uid p None (Some (store_document (new_document uid p 1 (db_next_id db) (db_now db))))
            (db\<lparr>db_next_id := Suc (db_next_id db),
                db_documents := db_documents db @ [store_document (new_document uid p 1 (db_next_id db) (db_now db))]\<rparr>))"
proof -
  have nodoc: "\<not> (\<exists>e \<in> set (db_documents db). doc_userId e = Some uid)"
    using assms by (simp add: find_user_document_None)
  show ?thesis
    using nodoc assms
    by (simp add: upsertStory_def write_document_def next_version_def fresh_id_def
        insert_document_def check_document_def new_document_def Let_def)
qed

lemma upsertStory_update:
  assumes wf: "story_db_wf db" and ex: "find_user_document uid db = Some e"
  shows "upsertStory uid p db =
    (if \<not> varchar255_ok (up_title p) then Inl (DbError (ValueTooLong ''title''))
     else if doc_version e = int4_max then Inl (DbError (IntegerOutOfRange ''version''))
     else append_story_diff uid p (Some e) (Some (store_document (updated_document p (doc_version e + 1) (db_now db) e)))
            (db\<lparr>db_documents := map (\<lambda>x. if doc_id x = doc_id e
                 then store_document (updated_document p (doc_version e + 1) (db_now db) x) else x) (db_documents db)\<rparr>))"
proof -
  have e: "e \<in> set (db_documents db)" "doc_userId e = Some uid"
    using find_user_document_Some [OF ex] by auto
  have ewf: "doc_wf db e" using wf e by (simp add: story_db_wf_def)
  have P: "\<And>d. d \<in> set (db_documents db) \<Longrightarrow>
            (doc_id d = doc_id e \<and> doc_userId d = Some uid) \<longleftrightarrow> doc_id d = doc_id e"
  proof -
    fix d assume d: "d \<in> set (db_documents db)"
    have "doc_id d = doc_id e \<Longrightarrow> d = e"
      using wf d e(1) by (auto simp: story_db_wf_def intro: distinct_map_eqD)
    then show "(doc_id d = doc_id e \<and> doc_userId d = Some uid) \<longleftrightarrow> doc_id d = doc_id e"
      using e(2) by auto
  qed
  let ?d = "updated_document p (doc_version e + 1) (db_now db) e"
  have title: "varchar255_ok (doc_title ?d) \<longleftrightarrow> varchar255_ok (up_title p)"
    using ewf by (cases "up_title p"; cases "doc_title e") (simp_all add: updated_document_def doc_wf_def varchar_fits_short)
  have ver: "int4_ok (doc_version ?d) \<longleftrightarrow> doc_version e \<noteq> int4_max"
    using ewf by (auto simp: updated_document_def doc_wf_def int4_ok_def)
  have fk: "fk_ok (db_users db) (doc_userId ?d)"
    using ewf e(2) by (auto simp: updated_document_def doc_wf_def)
  have nv: "next_version (Some e) = doc_version e + 1" by (simp add: next_version_def)
  have upd: "update_documents (\<lambda>d. doc_id d = doc_id e \<and> doc_userId d = Some uid)
               (updated_document p (next_version (Some e)) (db_now db)) db =
           (case check_document db ?d of Some err \<Rightarrow> Inl err
            | None \<Rightarrow> Inr ([store_document ?d], db\<lparr>db_documents := map (\<lambda>x. if doc_id x = doc_id e
                 then store_document (updated_document p (doc_version e + 1) (db_now db) x) else x) (db_documents db)\<rparr>))"
    unfolding nv by (rule update_documents_one [OF wf e(1) P])
  show ?thesis
    using title ver fk
    by (simp add: upsertStory_def ex write_document_def upd check_document_def Let_def)
qed

lemma doc_wf_version_le: "doc_wf db d \<Longrightarrow> doc_version d \<le> int4_max"
  by (simp add: doc_wf_def int4_ok_def)

lemma updated_document_keeps [simp]:
  "doc_id (updated_document p v now x) = doc_id x"
  "doc_userId (updated_document p v now x) = doc_userId x"
  "doc_version (updated_document p v now x) = v"
  "doc_story (updated_document p v now x) = Some (up_story p)"
  by (simp_all add: updated_document_def)

lemma new_document_fields [simp]:
  "doc_id (new_document uid p v i now) = i"
  "doc_userId (new_document uid p v i now) = Some uid"
  "doc_version (new_document uid p v i now) = v"
  "doc_story (new_document uid p v i now) = Some (up_story p)"
  "doc_title (new_document uid p v i now) = up_title p"
  by (simp_all add: new_document_def)

text \<open>The closed form of a successful upsert.\<close>

lemma upsertStory_closed:
  assumes wf: "story_db_wf db" and ok: "\<not> upsert_fails uid p db"
    and w: "upsert_written uid p db = (d, db1)"
  shows "upsertStory uid p db =
    (if has_diff p then
       Inr (\<lparr>res_diff = Some (new_diff uid p (find_user_document uid db) d (db_next_id db1) (db_now db1)),
              res_document = Some d\<rparr>,
            db1\<lparr>db_next_id := Suc (db_next_id db1),
               db_diffs := db_diffs db1 @ [new_diff uid p (find_user_document uid db) d (db_next_id db1) (db_now db1)]\<rparr>)
     else Inr (\<lparr>res_diff = None, res_document = Some d\<rparr>, db1))"
proof (cases "find_user_document uid db")
  case None
  with ok have t: "varchar255_ok (up_title p)" and u: "uid \<in> set (db_users db)"
    by (auto simp: upsert_fails_def)
  have dd: "d = store_document (new_document uid p 1 (db_next_id db) (db_now db))"
    and db1: "db1 = db\<lparr>db_next_id := Suc (db_next_id db), db_documents := db_documents db @ [d]\<rparr>"
    using w None by (auto simp: upsert_written_def)
  have "upsertStory uid p db = append_story_diff uid p None (Some d) db1"
    using t u None by (simp add: upsertStory_insert dd db1)
  also have "\<dots> = (if has_diff p then
       Inr (\<lparr>res_diff = Some (new_diff uid p None d (db_next_id db1) (db_now db1)), res_document = Some d\<rparr>,
            db1\<lparr>db_next_id := Suc (db_next_id db1),
               db_diffs := db_diffs db1 @ [new_diff uid p None d (db_next_id db1) (db_now db1)]\<rparr>)
     else Inr (\<lparr>res_diff = None, res_document = Some d\<rparr>, db1))"
    by (rule append_story_diff_Some) (simp_all add: db1 u dd)
  finally show ?thesis using None by simp
next
  case (Some e)
  have e: "e \<in> set (db_documents db)" "doc_userId e = Some uid"
    using find_user_document_Some [OF Some] by auto
  then have ewf: "doc_wf db e" using wf by (simp add: story_db_wf_def)
  with ok Some have t: "varchar255_ok (up_title p)" and v: "doc_version e \<noteq> int4_max"
    by (auto simp: upsert_fails_def next_version_def)
  have dd: "d = store_document (updated_document p (doc_version e + 1) (db_now db) e)"
    and db1: "db1 = db\<lparr>db_documents := map (\<lambda>x. if doc_id x = doc_id e
                 then store_document (updated_document p (doc_version e + 1) (db_now db) x) else x) (db_documents db)\<rparr>"
    using w Some by (auto simp: upsert_written_def)
  have mem: "doc_id d \<in> set (map doc_id (db_documents db1))"
    using e(1) by (force simp: dd db1)
  have u: "uid \<in> set (db_users db1)" using ewf e(2) by (auto simp: doc_wf_def db1)
  have i1: "int4_ok (doc_version d)"
    using v doc_wf_version_le [OF ewf] ewf by (auto simp: doc_wf_def int4_ok_def dd)
  have i2: "int4_opt_ok (map_option doc_version (Some e))" using ewf by (simp add: doc_wf_def)
  have "upsertStory uid p db = append_story_diff uid p (Some e) (Some d) db1"
    using t v by (simp add: upsertStory_update [OF wf Some] dd db1)
  also have "\<dots> = (if has_diff p then
       Inr (\<lparr>res_diff = Some (new_diff uid p (Some e) d (db_next_id db1) (db_now db1)), res_document = Some d\<rparr>,
            db1\<lparr>db_next_id := Suc (db_next_id db1),
               db_diffs := db_diffs db1 @ [new_diff uid p (Some e) d (db_next_id db1) (db_now db1)]\<rparr>)
     else Inr (\<lparr>res_diff = None, res_document = Some d\<rparr>, db1))"
    by (rule append_story_diff_Some [OF mem u i2 i1])
  finally show ?thesis using Some by simp
qed

lemma diff_versions_ok_mono: "diff_versions_ok f c \<Longrightarrow> c \<le> c' \<Longrightarrow> diff_versions_ok f c'"
  by (auto simp: diff_versions_ok_def)

lemma doc_wf_mono:
  "doc_wf db d \<Longrightarrow> db_next_id db \<le> db_next_id db' \<Longrightarrow> db_users db' = db_users db \<Longrightarrow> doc_wf db' d"
  by (auto simp: doc_wf_def)

lemma diff_wf_mono:
  assumes f: "diff_wf db f" and n: "db_next_id db \<le> db_next_id db'"
    and grow: "\<forall>d \<in> set (db_documents db). \<exists>d' \<in> set (db_documents db').
           doc_id d' = doc_id d \<and> doc_userId d' = doc_userId d \<and> doc_version d \<le> doc_version d'"
  shows "diff_wf db' f"
proof -
  from f obtain d where d: "d \<in> set (db_documents db)" "diff_storyId f = Some (doc_id d)"
      "diff_userId f = doc_userId d" "diff_versions_ok f (doc_version d)"
    by (auto simp: diff_wf_def)
  from grow d(1) obtain d' where d': "d' \<in> set (db_documents db')" "doc_id d' = doc_id d"
      "doc_userId d' = doc_userId d" "doc_version d \<le> doc_version d'"
    by blast
  have "diff_id f < db_next_id db'" using f n by (simp add: diff_wf_def)
  moreover have "\<exists>x \<in> set (db_documents db'). diff_storyId f = Some (doc_id x) \<and>
        diff_userId f = doc_userId x \<and> diff_versions_ok f (doc_version x)"
    using d' d by (intro bexI [of _ d']) (auto intro: diff_versions_ok_mono)
  ultimately show ?thesis by (simp add: diff_wf_def)
qed

lemma story_db_wfI:
  assumes "distinct (map doc_id (db_documents db))" "distinct (map diff_id (db_diffs db))"
    "\<And>d. d \<in> set (db_documents db) \<Longrightarrow> doc_wf db d"
    "\<And>d1 d2. d1 \<in> set (db_documents db) \<Longrightarrow> d2 \<in> set (db_documents db) \<Longrightarrow>
        doc_userId d1 = doc_userId d2 \<Longrightarrow> d1 = d2"
    "\<And>f. f \<in> set (db_diffs db) \<Longrightarrow> diff_wf db f"
    "\<And>f1 f2. f1 \<in> set (db_diffs db) \<Longrightarrow> f2 \<in> set (db_diffs db) \<Longrightarrow>
        diff_storyId f1 = diff_storyId f2 \<Longrightarrow> diff_nextVersion f1 = diff_nextVersion f2 \<Longrightarrow> f1 = f2"
  shows "story_db_wf db"
  using assms by (simp add: story_db_wf_def)

lemma story_db_wfD:
  assumes "story_db_wf db"
  shows "distinct (map doc_id (db_documents db))" "distinct (map diff_id (db_diffs db))"
    "\<And>d. d \<in> set (db_documents db) \<Longrightarrow> doc_wf db d"
    "\<And>d1 d2. d1 \<in> set (db_documents db) \<Longrightarrow> d2 \<in> set (db_documents db) \<Longrightarrow>
        doc_userId d1 = doc_userId d2 \<Longrightarrow> d1 = d2"
    "\<And>f. f \<in> set (db_diffs db) \<Longrightarrow> diff_wf db f"
    "\<And>f1 f2. f1 \<in> set (db_diffs db) \<Longrightarrow> f2 \<in> set (db_diffs db) \<Longrightarrow>
        diff_storyId f1 = diff_storyId f2 \<Longrightarrow> diff_nextVersion f1 = diff_nextVersion f2 \<Longrightarrow> f1 = f2"
  using assms by (simp_all add: story_db_wf_def)

lemma story_db_wf_doc_ids:
  "story_db_wf db \<Longrightarrow> d \<in> set (db_documents db) \<Longrightarrow> doc_id d < db_next_id db"
  by (simp add: story_db_wf_def doc_wf_def)

lemma upsert_written_insert_wf:
  assumes wf: "story_db_wf db" and none: "find_user_document uid db = None"
    and u: "uid \<in> set (db_users db)" and t: "varchar255_ok (up_title p)"
    and w: "upsert_written uid p db = (d, db1)"
  shows "story_db_wf db1 \<and> d \<in> set (db_documents db1) \<and> doc_userId d = Some uid \<and>
         (\<forall>f \<in> set (db_diffs db1). diff_storyId f = Some (doc_id d) \<longrightarrow>
            (\<exists>v. diff_nextVersion f = Some v \<and> v < doc_version d))"
proof -
  have dd: "d = store_document (new_document uid p 1 (db_next_id db) (db_now db))"
    and db1: "db1 = db\<lparr>db_next_id := Suc (db_next_id db), db_documents := db_documents db @ [d]\<rparr>"
    using w none by (auto simp: upsert_written_def)
  have fresh: "\<forall>x \<in> set (db_documents db). doc_id x \<noteq> doc_id d"
    using story_db_wf_doc_ids [OF wf] by (fastforce simp: dd)
  have nouser: "\<forall>x \<in> set (db_documents db). doc_userId x \<noteq> Some uid"
    using none by (simp add: find_user_document_None)
  have dwf: "doc_wf db1 d" using u by (simp add: doc_wf_def db1 dd store_title_length)
  have olddocs: "doc_wf db1 x" if "x \<in> set (db_documents db)" for x
    using story_db_wfD(3) [OF wf that] by (rule doc_wf_mono) (simp_all add: db1)
  have grow: "\<forall>x \<in> set (db_documents db). \<exists>x' \<in> set (db_documents db1).
      doc_id x' = doc_id x \<and> doc_userId x' = doc_userId x \<and> doc_version x \<le> doc_version x'"
    by (auto simp: db1)
  have olddiffs: "diff_wf db1 f" if "f \<in> set (db_diffs db)" for f
    using story_db_wfD(5) [OF wf that] _ grow by (rule diff_wf_mono) (simp add: db1)
  have nodiff: "\<forall>f \<in> set (db_diffs db). diff_storyId f \<noteq> Some (doc_id d)"
    using story_db_wfD(5) [OF wf] fresh by (fastforce simp: diff_wf_def)
  have "story_db_wf db1"
  proof (rule story_db_wfI)
    show "distinct (map doc_id (db_documents db1))"
      using story_db_wfD(1) [OF wf] fresh by (auto simp: db1)
    show "distinct (map diff_id (db_diffs db1))" using story_db_wfD(2) [OF wf] by (simp add: db1)
    show "doc_wf db1 x" if "x \<in> set (db_documents db1)" for x
      using that dwf olddocs by (auto simp: db1)
    show "x1 = x2" if "x1 \<in> set (db_documents db1)" "x2 \<in> set (db_documents db1)"
      "doc_userId x1 = doc_userId x2" for x1 x2
      using that story_db_wfD(4) [OF wf] nouser by (auto simp: db1 dd)
    show "diff_wf db1 f" if "f \<in> set (db_diffs db1)" for f
      using that olddiffs by (simp add: db1)
    show "f1 = f2" if "f1 \<in> set (db_diffs db1)" "f2 \<in> set (db_diffs db1)"
      "diff_storyId f1 = diff_storyId f2" "diff_nextVersion f1 = diff_nextVersion f2" for f1 f2
      using that story_db_wfD(6) [OF wf] by (simp add: db1)
  qed
  then show ?thesis using nodiff by (simp add: db1 dd)
qed

lemma upsert_written_update_wf:
  assumes wf: "story_db_wf db" and ex: "find_user_document uid db = Some e"
    and t: "varchar255_ok (up_title p)" and v: "doc_version e \<noteq> int4_max"
    and w: "upsert_written uid p db = (d, db1)"
  shows "story_db_wf db1 \<and> d \<in> set (db_documents db1) \<and> doc_userId d = Some uid \<and>
         (\<forall>f \<in> set (db_diffs db1). diff_storyId f = Some (doc_id d) \<longrightarrow>
            (\<exists>v. diff_nextVersion f = Some v \<and> v < doc_version d))"
proof -
  define g where "g x = (if doc_id x = doc_id e then store_document (updated_document p (doc_version e + 1) (db_now db) x) else x)" for x
  have e: "e \<in> set (db_documents db)" "doc_userId e = Some uid"
    using find_user_document_Some [OF ex] by auto
  have ewf: "doc_wf db e" using wf e by (simp add: story_db_wf_def)
  have dist: "distinct (map doc_id (db_documents db))" using wf by (simp add: story_db_wf_def)
  have same: "\<And>x. x \<in> set (db_documents db) \<Longrightarrow> doc_id x = doc_id e \<Longrightarrow> x = e"
    using dist e(1) by (blast intro: distinct_map_eqD)
  have dd: "d = g e" and db1: "db1 = db\<lparr>db_documents := map g (db_documents db)\<rparr>"
    using w ex by (auto simp: upsert_written_def g_def)
  have gid [simp]: "doc_id (g x) = doc_id x" "doc_userId (g x) = doc_userId x" for x
    by (simp_all add: g_def)
  have ids: "doc_id \<circ> g = doc_id"
    by (simp add: fun_eq_iff)
  have gwf: "doc_wf db1 (g x)" if x: "x \<in> set (db_documents db)" for x
  proof (cases "doc_id x = doc_id e")
    case True
    with x same have "x = e" by blast
    then show ?thesis
      using ewf v doc_wf_version_le [OF ewf] True
      by (auto simp: g_def doc_wf_def db1 int4_ok_def store_title_length)
  next
    case False
    with x wf show ?thesis by (auto simp: g_def story_db_wf_def db1 intro: doc_wf_mono)
  qed
  have gver: "doc_version x \<le> doc_version (g x)" if "x \<in> set (db_documents db)" for x
    using same [OF that] by (cases "doc_id x = doc_id e") (simp_all add: g_def)
  have grow: "\<forall>x \<in> set (db_documents db). \<exists>x' \<in> set (db_documents db1).
      doc_id x' = doc_id x \<and> doc_userId x' = doc_userId x \<and> doc_version x \<le> doc_version x'"
  proof
    fix x assume x: "x \<in> set (db_documents db)"
    then have "g x \<in> set (db_documents db1)" by (simp add: db1)
    with gver [OF x] show "\<exists>x' \<in> set (db_documents db1).
      doc_id x' = doc_id x \<and> doc_userId x' = doc_userId x \<and> doc_version x \<le> doc_version x'"
      by (intro bexI [of _ "g x"]) simp_all
  qed
  have olddiffs: "diff_wf db1 f" if "f \<in> set (db_diffs db)" for f
    using story_db_wfD(5) [OF wf that] _ grow by (rule diff_wf_mono) (simp add: db1)
  have "story_db_wf db1"
  proof (rule story_db_wfI)
    show "distinct (map doc_id (db_documents db1))" using dist by (simp add: db1 ids)
    show "distinct (map diff_id (db_diffs db1))" using story_db_wfD(2) [OF wf] by (simp add: db1)
    show "doc_wf db1 x" if "x \<in> set (db_documents db1)" for x
      using that gwf by (auto simp: db1)
    show "x1 = x2" if "x1 \<in> set (db_documents db1)" "x2 \<in> set (db_documents db1)"
      "doc_userId x1 = doc_userId x2" for x1 x2
      using that story_db_wfD(4) [OF wf] by (auto simp: db1) metis
    show "diff_wf db1 f" if "f \<in> set (db_diffs db1)" for f
      using that olddiffs by (simp add: db1)
    show "f1 = f2" if "f1 \<in> set (db_diffs db1)" "f2 \<in> set (db_diffs db1)"
      "diff_storyId f1 = diff_storyId f2" "diff_nextVersion f1 = diff_nextVersion f2" for f1 f2
      using that story_db_wfD(6) [OF wf] by (simp add: db1)
  qed
  moreover have "d \<in> set (db_documents db1)" using e(1) by (simp add: dd db1)
  moreover have "(\<forall>f \<in> set (db_diffs db1). diff_storyId f = Some (doc_id d) \<longrightarrow>
            (\<exists>v. diff_nextVersion f = Some v \<and> v < doc_version d))"
  proof (intro ballI impI)
    fix f assume f: "f \<in> set (db_diffs db1)" and sid: "diff_storyId f = Some (doc_id d)"
    from f have "f \<in> set (db_diffs db)" by (simp add: db1)
    from story_db_wfD(5) [OF wf this] obtain x where x: "x \<in> set (db_documents db)"
        "diff_storyId f = Some (doc_id x)" "diff_versions_ok f (doc_version x)"
      by (auto simp: diff_wf_def)
    with sid have "x = e" using same by (simp add: dd)
    with x(3) show "\<exists>v. diff_nextVersion f = Some v \<and> v < doc_version d"
      by (auto simp: diff_versions_ok_def dd g_def)
  qed
  ultimately show ?thesis using e(2) by (simp add: dd)
qed

lemma upsert_written_facts:
  assumes wf: "story_db_wf db" and ok: "\<not> upsert_fails uid p db"
    and w: "upsert_written uid p db = (d, db1)"
  shows "story_db_wf db1 \<and> d \<in> set (db_documents db1) \<and> doc_userId d = Some uid \<and>
         (\<forall>f \<in> set (db_diffs db1). diff_storyId f = Some (doc_id d) \<longrightarrow>
            (\<exists>v. diff_nextVersion f = Some v \<and> v < doc_version d)) \<and>
         doc_version d = next_version (find_user_document uid db) \<and>
         doc_story d = Some (up_story p) \<and>
         map_option doc_version (find_user_document uid db) =
           (if doc_version d = 1 then None else Some (doc_version d - 1)) \<and>
         db_diffs db1 = db_diffs db \<and> db_users db1 = db_users db"
proof (cases "find_user_document uid db")
  case None
  with ok have "varchar255_ok (up_title p)" "uid \<in> set (db_users db)"
    by (auto simp: upsert_fails_def)
  with upsert_written_insert_wf [OF wf None _ _ w] None w show ?thesis
    by (auto simp: upsert_written_def next_version_def)
next
  case (Some e)
  have ewf: "doc_wf db e" using find_user_document_Some [OF Some] story_db_wfD(3) [OF wf] by blast
  with ok Some have "varchar255_ok (up_title p)" "doc_version e \<noteq> int4_max"
    by (auto simp: upsert_fails_def next_version_def)
  with upsert_written_update_wf [OF wf Some _ _ w] Some w ewf show ?thesis
    by (auto simp: upsert_written_def next_version_def doc_wf_def)
qed

lemma append_new_diff_wf:
  assumes wf: "story_db_wf db1" and d: "d \<in> set (db_documents db1)" "doc_userId d = Some uid"
    and old: "\<forall>f \<in> set (db_diffs db1). diff_storyId f = Some (doc_id d) \<longrightarrow>
                (\<exists>v. diff_nextVersion f = Some v \<and> v < doc_version d)"
    and prev: "map_option doc_version existing =
                 (if doc_version d = 1 then None else Some (doc_version d - 1))"
  shows "story_db_wf (db1\<lparr>db_next_id := Suc (db_next_id db1),
           db_diffs := db_diffs db1 @ [new_diff uid p existing d (db_next_id db1) now]\<rparr>)"
    (is "story_db_wf ?db2")
proof -
  let ?f = "new_diff uid p existing d (db_next_id db1) now"
  have dwf: "doc_wf db1 d" using story_db_wfD(3) [OF wf d(1)] .
  have fresh: "\<forall>g \<in> set (db_diffs db1). diff_id g < db_next_id db1"
    using story_db_wfD(5) [OF wf] by (simp add: diff_wf_def)
  have grow: "\<forall>x \<in> set (db_documents db1). \<exists>x' \<in> set (db_documents ?db2).
      doc_id x' = doc_id x \<and> doc_userId x' = doc_userId x \<and> doc_version x \<le> doc_version x'"
    by auto
  have fwf: "diff_wf ?db2 ?f"
  proof -
    have "diff_versions_ok ?f (doc_version d)"
      using dwf prev by (simp add: diff_versions_ok_def new_diff_def doc_wf_def)
    then show ?thesis
      using d by (auto simp: diff_wf_def new_diff_def)
  qed
  show ?thesis
  proof (rule story_db_wfI)
    show "distinct (map doc_id (db_documents ?db2))" using story_db_wfD(1) [OF wf] by simp
    show "distinct (map diff_id (db_diffs ?db2))"
      using story_db_wfD(2) [OF wf] fresh by (auto simp: new_diff_def)
    show "doc_wf ?db2 x" if "x \<in> set (db_documents ?db2)" for x
    proof -
      from that have "doc_wf db1 x" using story_db_wfD(3) [OF wf] by simp
      then show ?thesis by (rule doc_wf_mono) simp_all
    qed
    show "x1 = x2" if "x1 \<in> set (db_documents ?db2)" "x2 \<in> set (db_documents ?db2)"
      "doc_userId x1 = doc_userId x2" for x1 x2
      using that story_db_wfD(4) [OF wf] by simp
    show "diff_wf ?db2 g" if g: "g \<in> set (db_diffs ?db2)" for g
    proof -
      consider "g \<in> set (db_diffs db1)" | "g = ?f" using g by auto
      then show ?thesis
      proof cases
        case 1
        from story_db_wfD(5) [OF wf 1] _ grow show ?thesis by (rule diff_wf_mono) simp
      next
        case 2
        with fwf show ?thesis by simp
      qed
    qed
    show "f1 = f2" if "f1 \<in> set (db_diffs ?db2)" "f2 \<in> set (db_diffs ?db2)"
      "diff_storyId f1 = diff_storyId f2" "diff_nextVersion f1 = diff_nextVersion f2" for f1 f2
    proof -
      have neq: "diff_nextVersion g \<noteq> diff_nextVersion ?f \<or> diff_storyId g \<noteq> diff_storyId ?f"
        if "g \<in> set (db_diffs db1)" for g
        using old that by (fastforce simp: new_diff_def)
      show ?thesis
        using that story_db_wfD(6) [OF wf] neq [of f1] neq [of f2] by auto
    qed
  qed
qed

lemma upsert_fails_Inl:
  assumes wf: "story_db_wf db" and f: "upsert_fails uid p db"
  shows "\<exists>err. upsertStory uid p db = Inl err"
proof (cases "find_user_document uid db")
  case None
  with f have "\<not> varchar255_ok (up_title p) \<or> uid \<notin> set (db_users db)"
    by (auto simp: upsert_fails_def next_version_def int4_max_def)
  with None show ?thesis by (auto simp: upsertStory_insert)
next
  case (Some e)
  have ewf: "doc_wf db e" using find_user_document_Some [OF Some] story_db_wfD(3) [OF wf] by blast
  with f Some have "\<not> varchar255_ok (up_title p) \<or> doc_version e = int4_max"
    using doc_wf_version_le [OF ewf] by (auto simp: upsert_fails_def next_version_def)
  then show ?thesis by (auto simp: upsertStory_update [OF wf Some])
qed

lemma upsertStory_Inr_shape:
  assumes wf: "story_db_wf db" and r: "upsertStory uid p db = Inr (r, db')"
  obtains d db1 where "upsert_written uid p db = (d, db1)" "\<not> upsert_fails uid p db"
    "res_document r = Some d" "db_documents db' = db_documents db1"
    "res_diff r = (if has_diff p then Some (new_diff uid p (find_user_document uid db) d (db_next_id db1) (db_now db1)) else None)"
    "db_diffs db' = db_diffs db1 @ (if has_diff p then [new_diff uid p (find_user_document uid db) d (db_next_id db1) (db_now db1)] else [])"
proof -
  have ok: "\<not> upsert_fails uid p db" using r upsert_fails_Inl [OF wf] by force
  obtain d db1 where w: "upsert_written uid p db = (d, db1)" by (cases "upsert_written uid p db")
  show ?thesis
    using that [OF w ok] r upsertStory_closed [OF wf ok w] by (cases "has_diff p") auto
qed

lemma upsertStory_post:
  assumes wf: "story_db_wf db" and r: "upsertStory uid p db = Inr (r, db')"
  shows "story_db_wf db' \<and>
         (\<exists>d. res_document r = Some d \<and> find_user_document uid db' = Some d \<and>
              doc_version d = next_version (find_user_document uid db) \<and>
              doc_story d = Some (up_story p))"
proof -
  obtain d db1 where w: "upsert_written uid p db = (d, db1)" and ok: "\<not> upsert_fails uid p db"
      and doc: "res_document r = Some d" and docs: "db_documents db' = db_documents db1"
    using upsertStory_Inr_shape [OF wf r] by metis
  note facts = upsert_written_facts [OF wf ok w]
  have wf': "story_db_wf db'"
  proof (cases "has_diff p")
    case True
    with r upsertStory_closed [OF wf ok w] have
      "db' = db1\<lparr>db_next_id := Suc (db_next_id db1),
          db_diffs := db_diffs db1 @ [new_diff uid p (find_user_document uid db) d (db_next_id db1) (db_now db1)]\<rparr>"
      by simp
    then show ?thesis using facts append_new_diff_wf by blast
  next
    case False
    with r upsertStory_closed [OF wf ok w] have "db' = db1" by simp
    then show ?thesis using facts by blast
  qed
  moreover have "find_user_document uid db' = Some d"
    using find_user_document_wf [OF wf'] facts docs by simp
  ultimately show ?thesis using doc facts by blast
qed

lemma upsert_written_other_user:
  assumes wf: "story_db_wf db" and ok: "\<not> upsert_fails uid p db"
    and w: "upsert_written uid p db = (d, db1)" and u: "u \<noteq> uid"
  shows "find_user_document u db1 = find_user_document u db"
proof (cases "find_user_document uid db")
  case None
  with w have "db_documents db1 = db_documents db @ [store_document (new_document uid p 1 (db_next_id db) (db_now db))]"
    by (auto simp: upsert_written_def)
  with u show ?thesis by (simp add: find_user_document_def find_filter)
next
  case (Some e)
  define g where "g x = (if doc_id x = doc_id e then store_document (updated_document p (doc_version e + 1) (db_now db) x) else x)" for x
  have e: "e \<in> set (db_documents db)" "doc_userId e = Some uid"
    using find_user_document_Some [OF Some] by auto
  with w Some have docs: "db_documents db1 = map g (db_documents db)"
    by (auto simp: upsert_written_def g_def)
  have keep: "\<forall>x \<in> set (db_documents db). (doc_userId (g x) = Some u) = (doc_userId x = Some u) \<and>
                 (doc_userId x = Some u \<longrightarrow> g x = x)"
  proof
    fix x assume x: "x \<in> set (db_documents db)"
    have "doc_id x = doc_id e \<Longrightarrow> x = e"
      using story_db_wfD(1) [OF wf] x e(1) by (blast intro: distinct_map_eqD)
    with e(2) u show "(doc_userId (g x) = Some u) = (doc_userId x = Some u) \<and>
                 (doc_userId x = Some u \<longrightarrow> g x = x)"
      by (auto simp: g_def)
  qed
  then show ?thesis
    by (simp add: find_user_document_def find_filter docs filter_map_keep)
qed

lemma delete_user_wf:
  assumes wf: "story_db_wf db"
  shows "story_db_wf (delete_user u db)" (is "story_db_wf ?db")
proof (rule story_db_wfI)
  show "distinct (map doc_id (db_documents ?db))"
    using story_db_wfD(1) [OF wf] by (simp add: delete_user_def distinct_map_filter)
  show "distinct (map diff_id (db_diffs ?db))"
    using story_db_wfD(2) [OF wf] by (simp add: delete_user_def distinct_map_filter)
  show "doc_wf ?db x" if "x \<in> set (db_documents ?db)" for x
    using that story_db_wfD(3) [OF wf] by (auto simp: delete_user_def doc_wf_def)
  show "x1 = x2" if "x1 \<in> set (db_documents ?db)" "x2 \<in> set (db_documents ?db)"
      "doc_userId x1 = doc_userId x2" for x1 x2
    using that story_db_wfD(4) [OF wf] by (auto simp: delete_user_def)
  show "diff_wf ?db f" if f: "f \<in> set (db_diffs ?db)" for f
  proof -
    from f have f0: "f \<in> set (db_diffs db)" "diff_userId f \<noteq> Some u" by (auto simp: delete_user_def Let_def)
    from story_db_wfD(5) [OF wf f0(1)] obtain d where d: "d \<in> set (db_documents db)"
        "diff_storyId f = Some (doc_id d)" "diff_userId f = doc_userId d"
        "diff_versions_ok f (doc_version d)" "diff_id f < db_next_id db"
      by (auto simp: diff_wf_def)
    with f0(2) have "d \<in> set (db_documents ?db)" by (simp add: delete_user_def)
    with d show ?thesis by (auto simp: diff_wf_def delete_user_def)
  qed
  show "f1 = f2" if "f1 \<in> set (db_diffs ?db)" "f2 \<in> set (db_diffs ?db)"
      "diff_storyId f1 = diff_storyId f2" "diff_nextVersion f1 = diff_nextVersion f2" for f1 f2
    using that story_db_wfD(6) [OF wf] by (auto simp: delete_user_def Let_def)
qed

lemma story_step_wf:
  assumes "story_step db db'" "story_db_wf db"
  shows "story_db_wf db'"
  using assms
proof (induction rule: story_step.induct)
  case (upsert uid p db r db')
  then show ?case using upsertStory_post by blast
next
  case (add_user u db)
  then show ?case
    unfolding story_db_wf_def doc_wf_def diff_wf_def insert_user_def by auto
next
  case (remove_user db u)
  then show ?case by (rule delete_user_wf)
next
  case (tick db t)
  then show ?case
    unfolding story_db_wf_def doc_wf_def diff_wf_def set_clock_def by auto
qed

lemma reachable_story_db_wf:
  assumes "story_reachable db"
  shows "story_db_wf db"
proof -
  from assms obtain db0 where init: "story_init db0" and run: "story_step\<^sup>*\<^sup>* db0 db"
    by (auto simp: story_reachable_def)
  from run show ?thesis
  proof (induction rule: rtranclp_induct)
    case base
    from init show ?case by (simp add: story_init_def story_db_wf_def)
  next
    case (step db1 db2)
    then show ?case by (blast intro: story_step_wf)
  qed
qed

lemma upsertStory_abs:
  assumes wf: "story_db_wf db" and r: "upsertStory uid p db = Inr (r, db')"
  shows "story_abs db' = abs_commit uid (up_story p) (story_abs db)"
proof
  fix u
  obtain d db1 where w: "upsert_written uid p db = (d, db1)" and ok: "\<not> upsert_fails uid p db"
      and docs: "db_documents db' = db_documents db1"
    using upsertStory_Inr_shape [OF wf r] by metis
  have same: "find_user_document u db' = find_user_document u db1"
    by (simp add: find_user_document_def docs)
  show "story_abs db' u = abs_commit uid (up_story p) (story_abs db) u"
  proof (cases "u = uid")
    case True
    from upsertStory_post [OF wf r] obtain d' where
      "find_user_document uid db' = Some d'" "doc_version d' = next_version (find_user_document uid db)"
      "doc_story d' = Some (up_story p)" by blast
    with True show ?thesis
      by (cases "find_user_document uid db") (auto simp: story_abs_def abs_commit_def next_version_def)
  next
    case False
    with same upsert_written_other_user [OF wf ok w False] show ?thesis
      by (simp add: story_abs_def abs_commit_def)
  qed
qed

lemma upsertStory_users:
  assumes wf: "story_db_wf db" and r: "upsertStory uid p db = Inr (r, db')"
  shows "db_users db' = db_users db"
proof -
  obtain d db1 where w: "upsert_written uid p db = (d, db1)" and ok: "\<not> upsert_fails uid p db"
    using upsertStory_Inr_shape [OF wf r] by metis
  have "db_users db1 = db_users db" using upsert_written_facts [OF wf ok w] by blast
  with r upsertStory_closed [OF wf ok w] show ?thesis by (cases "has_diff p") auto
qed

lemma upsertStory_title_error:
  assumes "story_db_wf db" "\<not> varchar255_ok (up_title p)"
  shows "upsertStory uid p db = Inl (DbError (ValueTooLong ''title''))"
  using assms
  by (cases "find_user_document uid db") (simp_all add: upsertStory_insert upsertStory_update)


lemma upsertStory_ok:
  assumes wf: "story_db_wf db" and ok: "\<not> upsert_fails uid p db"
  shows "\<exists>r db'. upsertStory uid p db = Inr (r, db')"
proof -
  obtain d db1 where w: "upsert_written uid p db = (d, db1)" by (cases "upsert_written uid p db")
  show ?thesis using upsertStory_closed [OF wf ok w] by (cases "has_diff p") auto
qed

lemma story_version_abs_commit:
  assumes "story_abs db' = abs_commit uid s (story_abs db)"
  shows "story_version db' u = (if u = uid then story_version db u + 1 else story_version db u)"
  using assms by (auto simp: story_version_def abs_commit_def split: option.splits)

lemma story_version_next:
  "next_version (find_user_document u db) = story_version db u + 1"
  by (simp add: next_version_def story_version_def story_abs_def split: option.split)

text \<open>
  C1. Every reachable state of the story tables records each version of a story at
  most once: two diffs of the same document with the same \<open>nextVersion\<close> are the
  same row, and each diff's \<open>previousVersion\<close> is one less than its \<open>nextVersion\<close>
  (absent for version 1).
\<close>

theorem reachable_diff_versions_unique:
  assumes "story_reachable db" "f1 \<in> set (db_diffs db)" "f2 \<in> set (db_diffs db)"
    "diff_storyId f1 = diff_storyId f2" "diff_nextVersion f1 = diff_nextVersion f2"
  shows "f1 = f2 \<and> (\<exists>v. diff_nextVersion f1 = Some v \<and>
           diff_previousVersion f1 = (if v = 1 then None else Some (v - 1)))"
proof -
  have wf: "story_db_wf db" using assms(1) by (rule reachable_story_db_wf)
  then have "diff_wf db f1" using assms(2) by (rule story_db_wfD(5))
  then have "\<exists>d :: story_document. diff_versions_ok f1 (doc_version d)" by (auto simp: diff_wf_def)
  then obtain d :: story_document where "diff_versions_ok f1 (doc_version d)" by blast
  then obtain v where "diff_nextVersion f1 = Some v"
      "diff_previousVersion f1 = (if v = 1 then None else Some (v - 1))"
    by (auto simp: diff_versions_ok_def)
  with story_db_wfD(6) [OF wf assms(2-5)] show ?thesis by blast
qed

text \<open>
  C2. In every reachable state each user has at most one story document (the unique
  index on \<open>user_id\<close>), owned by an existing user, with a version between 1 and the
  largest PostgreSQL \<open>integer\<close>.
\<close>

theorem reachable_one_document_per_user:
  assumes "story_reachable db" "d1 \<in> set (db_documents db)" "d2 \<in> set (db_documents db)"
    "doc_userId d1 = doc_userId d2"
  shows "d1 = d2 \<and> (\<exists>u. doc_userId d1 = Some u \<and> u \<in> set (db_users db)) \<and>
         1 \<le> doc_version d1 \<and> doc_version d1 \<le> int4_max"
proof -
  have wf: "story_db_wf db" using assms(1) by (rule reachable_story_db_wf)
  then have "doc_wf db d1" using assms(2) by (rule story_db_wfD(3))
  then have "(\<exists>u. doc_userId d1 = Some u \<and> u \<in> set (db_users db)) \<and> 1 \<le> doc_version d1"
      and "doc_version d1 \<le> int4_max"
    using doc_wf_version_le [of db d1] by (simp_all add: doc_wf_def)
  with story_db_wfD(4) [OF wf assms(2-4)] show ?thesis by blast
qed

text \<open>
  C3. A successful \<open>upsertStory\<close> leaves the user with exactly one document, the one
  it returns, whose version is the previous version plus one (1 for a new user) and
  whose story is the story given.
\<close>

theorem upsertStory_commits:
  assumes "story_db_wf db" "upsertStory uid p db = Inr (r, db')"
  shows "\<exists>d. res_document r = Some d \<and> find_user_document uid db' = Some d \<and>
           doc_version d = next_version (find_user_document uid db) \<and>
           doc_story d = Some (up_story p)"
  using upsertStory_post [OF assms] by blast

text \<open>
  C4. \<open>upsertStory\<close> preserves the invariant of the two tables.
\<close>

theorem upsertStory_preserves_wf:
  assumes "story_db_wf db" "upsertStory uid p db = Inr (r, db')"
  shows "story_db_wf db'"
  using upsertStory_post [OF assms] by blast

text \<open>
  C5. \<open>upsertStory\<close> fails (and, being one transaction, changes nothing) exactly when
  the title does not fit \<open>varchar(255)\<close> (more than 255 characters and not only
  spaces past the 255th), or the user has no document and no user row, or the next
  version would exceed the 32-bit \<open>integer\<close> column.
\<close>

theorem upsertStory_error_iff:
  assumes "story_db_wf db"
  shows "(\<exists>err. upsertStory uid p db = Inl err) \<longleftrightarrow> upsert_fails uid p db"
proof
  assume "\<exists>err. upsertStory uid p db = Inl err"
  then show "upsert_fails uid p db"
    using upsertStory_closed [OF assms] by (metis prod.exhaust sum.distinct(1))
next
  assume "upsert_fails uid p db"
  then show "\<exists>err. upsertStory uid p db = Inl err" by (rule upsert_fails_Inl [OF assms])
qed


text \<open>
  C6. A successful \<open>upsertStory\<close> appends a diff row exactly when the parameters
  carry diff content (\<open>hasDiff\<close>), and that row links the previous version to the
  new one and snapshots the story.
\<close>

theorem upsertStory_diff_record:
  assumes wf: "story_db_wf db" and r: "upsertStory uid p db = Inr (r, db')"
  shows "(res_diff r \<noteq> None \<longleftrightarrow> has_diff p) \<and>
         db_diffs db' = db_diffs db @ (case res_diff r of None \<Rightarrow> [] | Some f \<Rightarrow> [f]) \<and>
         (\<forall>f. res_diff r = Some f \<longrightarrow>
            diff_previousVersion f = map_option doc_version (find_user_document uid db) \<and>
            diff_nextVersion f = Some (next_version (find_user_document uid db)) \<and>
            diff_userId f = Some uid \<and>
            diff_snapshot f = nullish_or (up_snapshot p) (Some (up_story p)))"
proof -
  obtain d db1 where w: "upsert_written uid p db = (d, db1)" and ok: "\<not> upsert_fails uid p db"
      and rd: "res_diff r = (if has_diff p then Some (new_diff uid p (find_user_document uid db) d (db_next_id db1) (db_now db1)) else None)"
      and ds: "db_diffs db' = db_diffs db1 @ (if has_diff p then [new_diff uid p (find_user_document uid db) d (db_next_id db1) (db_now db1)] else [])"
    using upsertStory_Inr_shape [OF wf r] by metis
  note facts = upsert_written_facts [OF wf ok w]
  show ?thesis using rd ds facts by (auto simp: new_diff_def)
qed

text \<open>
  C7. \<open>upsertStory\<close> refines the abstract versioned store: the per-user view of the
  tables after the transaction is the abstract commit of the new story.
\<close>

theorem upsertStory_refines:
  assumes wf: "story_db_wf db" and r: "upsertStory uid p db = Inr (r, db')"
  shows "story_abs db' = abs_commit uid (up_story p) (story_abs db)"
  using upsertStory_abs [OF assms] .

text \<open>
  C8. On an existing document the story is replaced and the version bumped, while a
  field the parameters leave \<open>undefined\<close> keeps its old value (drizzle drops it from
  the \<open>SET\<close> list), so a summary, title, reasoning or id list of an older story
  survives next to the new story. A given title is stored as \<open>varchar(255)\<close> keeps
  it: cut to 255 characters when the rest is spaces.
\<close>

theorem upsertStory_update_keeps_omitted:
  assumes wf: "story_db_wf db" and ex: "find_user_document uid db = Some e"
    and r: "upsertStory uid p db = Inr (r, db')" and d: "res_document r = Some d"
  shows "doc_story d = Some (up_story p) \<and> doc_version d = doc_version e + 1 \<and>
         doc_summary d = nullish_or (up_summary p) (doc_summary e) \<and>
         doc_title d = nullish_or (store_title (up_title p)) (doc_title e) \<and>
         doc_reasoning d = nullish_or (up_reasoning p) (doc_reasoning e) \<and>
         doc_memoryIds d = nullish_or (up_memoryIds p) (doc_memoryIds e) \<and>
         doc_sourceIds d = nullish_or (up_sourceIds p) (doc_sourceIds e) \<and>
         doc_id d = doc_id e \<and> doc_createdAt d = doc_createdAt e"
proof -
  obtain d' db1 where w: "upsert_written uid p db = (d', db1)" and "res_document r = Some d'"
    using upsertStory_Inr_shape [OF wf r] by metis
  with d have dd: "d = store_document (updated_document p (doc_version e + 1) (db_now db) e)"
    using ex by (auto simp: upsert_written_def)
  have "doc_wf db e" using find_user_document_Some [OF ex] story_db_wfD(3) [OF wf] by blast
  then have "store_title (doc_title e) = doc_title e" by (simp add: doc_wf_def store_title_short)
  then have "doc_title d = nullish_or (store_title (up_title p)) (doc_title e)"
    by (cases "up_title p") (simp_all add: dd updated_document_def)
  then show ?thesis by (simp add: dd updated_document_def)
qed

text \<open>
  C9. Under the invariant, \<open>getLatestStoryDocument\<close> (ordered by version and update
  time) returns the user's one document, the row \<open>upsertStory\<close> finds.
\<close>

theorem getLatestStoryDocument_eq_find:
  assumes wf: "story_db_wf db"
  shows "getLatestStoryDocument u db = find_user_document u db"
proof -
  let ?L = "filter (\<lambda>d. doc_userId d = Some u) (db_documents db)"
  have "distinct (db_documents db)" using story_db_wfD(1) [OF wf] by (simp add: distinct_map)
  then have "distinct ?L" by simp
  moreover have "\<forall>x \<in> set ?L. \<forall>y \<in> set ?L. x = y" using story_db_wfD(4) [OF wf] by auto
  ultimately have "length ?L \<le> 1" by (rule distinct_all_eq_length)
  then have "?L = [] \<or> (\<exists>x. ?L = [x])" by (cases ?L) auto
  then show ?thesis
    by (auto simp: getLatestStoryDocument_def find_user_document_def find_filter)
qed

text \<open>
  C10. \<open>listDiffs\<close> returns at most \<open>limit\<close> of the user's diffs, all of them the
  user's, newest \<open>createdAt\<close> first.
\<close>

theorem listDiffs_newest_first:
  "sorted (map (\<lambda>d. - diff_createdAt d) (listDiffs uid n db)) \<and>
   length (listDiffs uid n db) = min n (length (filter (\<lambda>d. diff_userId d = Some uid) (db_diffs db))) \<and>
   (\<forall>d \<in> set (listDiffs uid n db). d \<in> set (db_diffs db) \<and> diff_userId d = Some uid)"
proof -
  let ?S = "sort_key (\<lambda>d. - diff_createdAt d) (filter (\<lambda>d. diff_userId d = Some uid) (db_diffs db))"
  have "sorted (map (\<lambda>d. - diff_createdAt d) ?S)" by (rule sorted_sort_key)
  then have "sorted (take n (map (\<lambda>d. - diff_createdAt d) ?S))" by (metis append_take_drop_id sorted_append)
  moreover have "set (take n ?S) \<subseteq> set ?S" by (rule set_take_subset)
  ultimately show ?thesis
    by (auto simp: listDiffs_def take_map [symmetric] length_sort min_def)
qed

end
