(* ===== verification/Story_Extractor.thy ===== *)
theory Story_Extractor
  imports Story_Prelude
begin

text \<open>
  \<open>UserStoryExtractor\<close> of \<open>packages/memory-user-memory/src/extractors/story.ts\<close>
  and the evaluation prompt of \<open>promptfoo/evals/story/prompt.ts\<close>: the zod
  \<open>resultSchema\<close> as a parser from JSON values to \<open>extraction_result\<close>, the
  \<open>commit_user_story\<close> tool that \<open>getTools\<close> declares, with the JSON Schema
  semantics the provider validates tool arguments by, \<open>buildUserPrompt\<close>, the
  message list of \<open>toolCall\<close> and its handling of the runtime's answer.

  The model runtime, the template engine of the system prompt and \<open>JSON.parse\<close>
  are parameters: the lemmas hold for every runtime answer and every parser.
  The lemmas show the round trip of a result through its JSON form, that the
  tool's JSON Schema and the zod schema accept the same argument objects, the
  errors of \<open>toolCall\<close> on each shape of answer, the shape of the user prompt,
  and where the evaluation prompt departs from it.
\<close>

record extraction_result =
  er_diff :: "string option"
  er_memoryIds :: "string list option"
  er_reasoning :: "string option"
  er_sourceIds :: "string list option"
  er_story :: string
  er_summary :: "string option"

subsection \<open>The zod \<open>resultSchema\<close>\<close>

text \<open>
  \<open>z.string()\<close> and \<open>z.array(z.string())\<close> on a present value. \<open>null\<close> is not a
  string: an optional field that is \<open>null\<close> is an issue, as in zod.
\<close>

fun zod_str :: "json \<Rightarrow> string option" where
  "zod_str (JStr s) = Some s"
| "zod_str _ = None"

fun zod_str_array :: "json \<Rightarrow> string list option" where
  "zod_str_array (JArr xs) = those (map zod_str xs)"
| "zod_str_array _ = None"

text \<open>
  A key of the shape: \<open>.optional()\<close> accepts a missing key; the error is the path
  of the issue. Zod checks the keys in the order of the shape, so the error a parse
  reports is its first issue.
\<close>

definition zod_optional ::
  "string \<Rightarrow> (json \<Rightarrow> 'a option) \<Rightarrow> (string \<times> json) list \<Rightarrow> string + 'a option" where
  "zod_optional k p kvs =
     (case obj_lookup kvs k of
        None \<Rightarrow> Inr None
      | Some v \<Rightarrow> (case p v of None \<Rightarrow> Inl k | Some a \<Rightarrow> Inr (Some a)))"

definition zod_required ::
  "string \<Rightarrow> (json \<Rightarrow> 'a option) \<Rightarrow> (string \<times> json) list \<Rightarrow> string + 'a" where
  "zod_required k p kvs =
     (case obj_lookup kvs k of
        None \<Rightarrow> Inl k
      | Some v \<Rightarrow> (case p v of None \<Rightarrow> Inl k | Some a \<Rightarrow> Inr a))"

text \<open>
  \<open>resultSchema.parse\<close>: an object (not \<open>null\<close>, not an array) whose keys of the
  shape have the declared types; keys outside the shape are stripped.
\<close>

definition resultSchema_parse :: "json \<Rightarrow> error + extraction_result" where
  "resultSchema_parse v =
     (case v of
        JObj kvs \<Rightarrow>
          map_sum ZodError id
           (sbind (zod_optional ''diff'' zod_str kvs) (\<lambda>d.
            sbind (zod_optional ''memoryIds'' zod_str_array kvs) (\<lambda>m.
            sbind (zod_optional ''reasoning'' zod_str kvs) (\<lambda>r.
            sbind (zod_optional ''sourceIds'' zod_str_array kvs) (\<lambda>s.
            sbind (zod_required ''story'' zod_str kvs) (\<lambda>st.
            sbind (zod_optional ''summary'' zod_str kvs) (\<lambda>su.
              Inr \<lparr>er_diff = d, er_memoryIds = m, er_reasoning = r, er_sourceIds = s,
                   er_story = st, er_summary = su\<rparr>)))))))
      | _ \<Rightarrow> Inl (ZodError []))"

text \<open>The keys of the shape.\<close>

definition result_keys :: "string list" where
  "result_keys = [''diff'', ''memoryIds'', ''reasoning'', ''sourceIds'', ''story'', ''summary'']"

text \<open>
  The JSON form of a result, as \<open>JSON.stringify\<close> writes the object: members in
  the order of the shape, an \<open>undefined\<close> member left out.
\<close>

definition opt_member :: "string \<Rightarrow> json option \<Rightarrow> (string \<times> json) list" where
  "opt_member k x = (case x of None \<Rightarrow> [] | Some v \<Rightarrow> [(k, v)])"

definition str_array_json :: "string list \<Rightarrow> json" where
  "str_array_json xs = JArr (map JStr xs)"

definition result_json :: "extraction_result \<Rightarrow> json" where
  "result_json r =
     JObj (opt_member ''diff'' (map_option JStr (er_diff r)) @
           opt_member ''memoryIds'' (map_option str_array_json (er_memoryIds r)) @
           opt_member ''reasoning'' (map_option JStr (er_reasoning r)) @
           opt_member ''sourceIds'' (map_option str_array_json (er_sourceIds r)) @
           [(''story'', JStr (er_story r))] @
           opt_member ''summary'' (map_option JStr (er_summary r)))"

subsection \<open>The \<open>commit_user_story\<close> tool\<close>

text \<open>
  The parameter schemas \<open>getTools\<close> writes, with their descriptions: a string, an
  array of items of a schema, an object of properties with its \<open>required\<close> keys.
\<close>

datatype json_schema =
    SString "string option"
  | SArray "string option" json_schema
  | SObject "(string \<times> json_schema) list" "string list"

record tool =
  tool_name :: string
  tool_description :: string
  tool_parameters :: json_schema

definition commit_user_story :: tool where
  "commit_user_story =
     \<lparr>tool_name = ''commit_user_story'',
      tool_description = ''Persist an updated user story document that summarizes the user, preferences, relationships, and recent events.'',
      tool_parameters = SObject
        [(''diff'', SString (Some ''Bullet list of changes applied this run'')),
         (''memoryIds'', SArray (Some ''Related memory IDs used to craft the story'') (SString None)),
         (''reasoning'', SString (Some ''Why these changes were applied'')),
         (''sourceIds'', SArray (Some ''Source IDs (topic ID, document ID, or anything related) tied to this update'') (SString None)),
         (''story'', SString (Some ''Complete Markdown story for the user'')),
         (''summary'', SString (Some ''Executive summary (2-3 lines)''))]
        [''story'']\<rparr>"

definition getTools :: "tool list" where
  "getTools = [commit_user_story]"

text \<open>
  JSON Schema validation of the subset the tool uses: \<open>type\<close>, \<open>items\<close>,
  \<open>properties\<close> (a key that is absent is not checked; keys outside the properties
  are allowed) and \<open>required\<close>.
\<close>

fun schema_accepts :: "json_schema \<Rightarrow> json \<Rightarrow> bool"
and props_accept :: "(string \<times> json_schema) list \<Rightarrow> (string \<times> json) list \<Rightarrow> bool" where
  "schema_accepts (SString _) v = (case v of JStr _ \<Rightarrow> True | _ \<Rightarrow> False)"
| "schema_accepts (SArray _ s) v = (case v of JArr xs \<Rightarrow> list_all (schema_accepts s) xs | _ \<Rightarrow> False)"
| "schema_accepts (SObject ps req) v =
     (case v of JObj kvs \<Rightarrow> props_accept ps kvs \<and> list_all (\<lambda>k. obj_lookup kvs k \<noteq> None) req
      | _ \<Rightarrow> False)"
| "props_accept [] kvs = True"
| "props_accept ((k, s) # ps) kvs =
     ((case obj_lookup kvs k of None \<Rightarrow> True | Some v \<Rightarrow> schema_accepts s v) \<and> props_accept ps kvs)"

subsection \<open>The prompts\<close>

text \<open>\<open>StoryExtractorOptions\<close>: the template properties and the extra messages.\<close>

datatype role = System | User | Assistant

record message =
  msg_content :: string
  msg_role :: role

record template_props =
  tp_existingStory :: "string option"
  tp_language :: "string option"
  tp_recentEvents :: "string option"
  tp_retrievedMemories :: "string option"
  tp_storyNotes :: "string option"
  tp_userProfile :: "string option"
  tp_username :: "string option"
  tp_additionalMessages :: "message list"

definition nl2 :: string where
  "nl2 = [char_of (10::nat), char_of (10::nat)]"

text \<open>\<open>options.x?.trim() || d\<close>.\<close>

definition trim_or :: "string option \<Rightarrow> string \<Rightarrow> string" where
  "trim_or x d = str_or (map_option js_trim x) d"

definition prompt_sections :: "(string option \<Rightarrow> string \<Rightarrow> string) \<Rightarrow> template_props \<Rightarrow> string list" where
  "prompt_sections body opts =
     [''## Existing Story (baseline)'',
      body (tp_existingStory opts) ''No existing story provided.'',
      ''## Retrieved Memories / Signals'',
      body (tp_retrievedMemories opts) ''N/A'',
      ''## Recent Events or Highlights'',
      body (tp_recentEvents opts) ''N/A'',
      ''## User Provided Notes or Requests'',
      body (tp_storyNotes opts) ''N/A'',
      ''## Extra Profile Context'',
      body (tp_userProfile opts) ''N/A'']"

definition buildUserPrompt :: "template_props \<Rightarrow> string" where
  "buildUserPrompt opts = js_join nl2 (prompt_sections trim_or opts)"

text \<open>
  \<open>generatePrompt\<close> of the evaluation: the same sections with \<open>vars.x || d\<close>, no
  \<open>trim\<close>; the system message is rendered by the same template engine.
\<close>

definition eval_userSections :: "template_props \<Rightarrow> string" where
  "eval_userSections opts = js_join nl2 (prompt_sections str_or opts)"

definition generatePrompt :: "(template_props \<Rightarrow> string) \<Rightarrow> template_props \<Rightarrow> message list" where
  "generatePrompt render opts =
     [\<lparr>msg_content = render opts, msg_role = System\<rparr>,
      \<lparr>msg_content = eval_userSections opts, msg_role = User\<rparr>]"

subsection \<open>\<open>toolCall\<close>\<close>

definition tool_messages :: "(template_props \<Rightarrow> string) \<Rightarrow> template_props \<Rightarrow> message list" where
  "tool_messages render opts =
     [\<lparr>msg_content = render opts, msg_role = System\<rparr>] @ tp_additionalMessages opts @
     [\<lparr>msg_content = buildUserPrompt opts, msg_role = User\<rparr>]"

text \<open>\<open>x || d\<close> on a JSON value.\<close>

definition js_or :: "json \<Rightarrow> json \<Rightarrow> json" where
  "js_or a d = (if js_truthy a then a else d)"

text \<open>
  The answer of \<open>generateObject\<close>: an array of tool calls, whose first call's
  \<open>arguments\<close> are a JSON text (parsed, \<open>''{}''\<close> when empty) or a value; any other
  answer is parsed as the result itself. \<open>json_parse\<close> is \<open>JSON.parse\<close>, \<open>None\<close>
  its \<open>SyntaxError\<close>.
\<close>

definition tool_result :: "(string \<Rightarrow> json option) \<Rightarrow> json \<Rightarrow> error + extraction_result" where
  "tool_result json_parse result =
     (case result of
        JArr calls \<Rightarrow>
          (let args = (case calls of [] \<Rightarrow> None | c # _ \<Rightarrow> js_get c ''arguments'')
           in case args of
                Some (JStr s) \<Rightarrow>
                  (case json_parse (if s = [] then ''{}'' else s) of
                     None \<Rightarrow> Inl JsonSyntaxError
                   | Some a \<Rightarrow> resultSchema_parse (js_or a (JObj [])))
              | Some a \<Rightarrow> resultSchema_parse (js_or a (JObj []))
              | None \<Rightarrow> resultSchema_parse (JObj []))
      | _ \<Rightarrow> resultSchema_parse result)"

definition toolCall ::
  "(template_props \<Rightarrow> string) \<Rightarrow> (message list \<Rightarrow> tool list \<Rightarrow> json) \<Rightarrow> (string \<Rightarrow> json option) \<Rightarrow>
   template_props \<Rightarrow> error + extraction_result" where
  "toolCall render generateObject json_parse opts =
     tool_result json_parse (generateObject (tool_messages render opts) getTools)"

subsection \<open>The evaluation's tool-call assertion\<close>

text \<open>
  The \<open>javascript\<close> assertion of \<open>promptfoo/evals/story/tests/cases.ts\<close>: every
  call of a non-empty answer names \<open>commit_user_story\<close> (at \<open>function.name\<close> or
  \<open>name\<close>) and carries arguments (at \<open>function.arguments\<close> or \<open>arguments\<close>,
  a JSON text or a value) whose \<open>story\<close> is a string longer than ten code units
  once trimmed. A thrown exception (a syntax error, \<open>null.story\<close>) fails the
  assertion.
\<close>

definition eval_call_ok :: "(string \<Rightarrow> json option) \<Rightarrow> json \<Rightarrow> bool" where
  "eval_call_ok json_parse call =
     (let fn = (case Option.bind (js_get call ''function'') (\<lambda>f. js_get f ''name'') of
                  Some n \<Rightarrow> if js_truthy n then Some n else js_get call ''name''
                | None \<Rightarrow> js_get call ''name'');
          raw = (case Option.bind (js_get call ''function'') (\<lambda>f. js_get f ''arguments'') of
                   Some a \<Rightarrow> if a = JNull then js_get call ''arguments'' else Some a
                 | None \<Rightarrow> js_get call ''arguments'');
          args = (case raw of
                    Some (JStr s) \<Rightarrow> json_parse s
                  | Some a \<Rightarrow> Some (js_or a (JObj []))
                  | None \<Rightarrow> Some (JObj []))
      in fn = Some (JStr ''commit_user_story'') \<and>
         (case args of
            None \<Rightarrow> False
          | Some a \<Rightarrow>
              a \<noteq> JNull \<and>
              (case js_get a ''story'' of
                 Some (JStr st) \<Rightarrow> 10 < js_length (js_trim st)
               | _ \<Rightarrow> False)))"

definition eval_toolCallAssert :: "(string \<Rightarrow> json option) \<Rightarrow> json \<Rightarrow> bool" where
  "eval_toolCallAssert json_parse output =
     (let calls = (case output of JArr cs \<Rightarrow> cs | _ \<Rightarrow> [])
      in calls \<noteq> [] \<and> list_all (eval_call_ok json_parse) calls)"


subsection \<open>Lemmas\<close>

lemma obj_lookup_append:
  "obj_lookup (xs @ ys) k = (case obj_lookup ys k of None \<Rightarrow> obj_lookup xs k | Some v \<Rightarrow> Some v)"
  by (simp add: obj_lookup_def map_add_def split: option.split)

lemma obj_lookup_opt_member [simp]:
  "obj_lookup (opt_member k x) k' = (if k' = k then x else None)"
  by (simp add: opt_member_def obj_lookup_def split: option.split)

lemma obj_lookup_Cons:
  "obj_lookup ((k, v) # kvs) k' = (case obj_lookup kvs k' of None \<Rightarrow> if k' = k then Some v else None | Some w \<Rightarrow> Some w)"
  by (simp add: obj_lookup_def map_add_def split: option.split)

lemma those_map_zod_str_iff: "those (map zod_str ys) = Some xs \<longleftrightarrow> ys = map JStr xs"
proof (induction ys arbitrary: xs)
  case (Cons y ys)
  then show ?case by (cases y) (auto simp: Cons_eq_map_conv split: option.splits)
qed auto

lemma zod_str_array_iff: "zod_str_array v = Some xs \<longleftrightarrow> v = str_array_json xs"
  by (cases v) (simp_all add: str_array_json_def those_map_zod_str_iff)

lemma zod_str_array_json [simp]: "zod_str_array (str_array_json xs) = Some xs"
  by (simp add: zod_str_array_iff)

lemma zod_str_iff: "zod_str v = Some s \<longleftrightarrow> v = JStr s"
  by (cases v) simp_all

lemma those_map_None_iff: "those (map f xs) \<noteq> None \<longleftrightarrow> list_all (\<lambda>x. f x \<noteq> None) xs"
  by (induction xs) (auto split: option.splits)

lemma zod_str_ex: "(\<exists>y. zod_str v = Some y) \<longleftrightarrow> schema_accepts (SString d) v"
  by (cases v) simp_all

lemma zod_str_array_ex:
  "(\<exists>y. zod_str_array v = Some y) \<longleftrightarrow> schema_accepts (SArray d (SString d')) v"
proof (cases v)
  case (JArr xs)
  have "those (map zod_str xs) \<noteq> None \<longleftrightarrow> list_all (schema_accepts (SString d')) xs"
    unfolding those_map_None_iff by (induction xs) (simp_all add: zod_str_ex [of _ None])
  with JArr show ?thesis by simp
qed simp_all

lemma map_sum_ZodError_Inr: "map_sum ZodError id x = Inr r \<longleftrightarrow> x = Inr r"
  by (cases x) simp_all

lemma sbind_Inr_ex: "(\<exists>b. sbind m f = Inr b) \<longleftrightarrow> (\<exists>a. m = Inr a \<and> (\<exists>b. f a = Inr b))"
  by (cases m) simp_all

lemma zod_optional_Inr_ex:
  "(\<exists>a. zod_optional k p kvs = Inr a) \<longleftrightarrow> (case obj_lookup kvs k of None \<Rightarrow> True | Some v \<Rightarrow> p v \<noteq> None)"
  by (auto simp: zod_optional_def split: option.splits)

lemma zod_required_Inr_ex:
  "(\<exists>a. zod_required k p kvs = Inr a) \<longleftrightarrow> (case obj_lookup kvs k of None \<Rightarrow> False | Some v \<Rightarrow> p v \<noteq> None)"
  by (auto simp: zod_required_def split: option.splits)

lemma resultSchema_parse_ok_iff:
  "(\<exists>r. resultSchema_parse (JObj kvs) = Inr r) \<longleftrightarrow>
     (\<exists>a. zod_optional ''diff'' zod_str kvs = Inr a) \<and> (\<exists>a. zod_optional ''memoryIds'' zod_str_array kvs = Inr a) \<and>
     (\<exists>a. zod_optional ''reasoning'' zod_str kvs = Inr a) \<and> (\<exists>a. zod_optional ''sourceIds'' zod_str_array kvs = Inr a) \<and>
     (\<exists>a. zod_required ''story'' zod_str kvs = Inr a) \<and> (\<exists>a. zod_optional ''summary'' zod_str kvs = Inr a)"
  unfolding resultSchema_parse_def by (simp add: map_sum_ZodError_Inr sbind_Inr_ex)

lemma resultSchema_parse_JObj_Nil: "resultSchema_parse (JObj []) = Inl (ZodError ''story'')"
  by (simp add: resultSchema_parse_def zod_optional_def zod_required_def)

lemma resultSchema_parse_not_obj: "(\<forall>kvs. v \<noteq> JObj kvs) \<Longrightarrow> resultSchema_parse v = Inl (ZodError [])"
  by (cases v) (simp_all add: resultSchema_parse_def)

lemma resultSchema_parse_js_or:
  "resultSchema_parse (js_or a (JObj [])) = Inr r \<longleftrightarrow> resultSchema_parse a = Inr r"
  by (cases a) (auto simp: js_or_def resultSchema_parse_JObj_Nil resultSchema_parse_not_obj)

lemma js_trim_nonempty_fixed:
  "js_trim s = s \<Longrightarrow> s \<noteq> [] \<Longrightarrow> trim_or x s \<noteq> [] \<and> js_trim (trim_or x s) = trim_or x s"
  by (cases x) (simp_all add: trim_or_def js_trim_idem)

lemma trim_or_trimmed: "pred_option (\<lambda>s. js_trim s = s) x \<Longrightarrow> trim_or x d = str_or x d"
  by (cases x) (simp_all add: trim_or_def)

lemma prompt_sections_join:
  "js_join nl2 (prompt_sections body opts) =
     ''## Existing Story (baseline)'' @ nl2 @ body (tp_existingStory opts) ''No existing story provided.'' @
     nl2 @ js_join nl2 (drop 2 (prompt_sections body opts))"
  by (simp add: prompt_sections_def)

lemma zod_optional_str_Inr:
  "zod_optional k zod_str kvs = Inr a \<Longrightarrow> obj_lookup kvs k = map_option JStr a"
  by (auto simp: zod_optional_def zod_str_iff split: option.splits)

lemma zod_optional_str_array_Inr:
  "zod_optional k zod_str_array kvs = Inr a \<Longrightarrow> obj_lookup kvs k = map_option str_array_json a"
  by (auto simp: zod_optional_def zod_str_array_iff split: option.splits)

lemma zod_required_str_Inr:
  "zod_required k zod_str kvs = Inr a \<Longrightarrow> obj_lookup kvs k = Some (JStr a)"
  by (auto simp: zod_required_def zod_str_iff split: option.splits)

lemma js_get_result_json:
  "js_get (result_json r) k =
     (if k = ''summary'' then map_option JStr (er_summary r)
      else if k = ''story'' then Some (JStr (er_story r))
      else if k = ''sourceIds'' then map_option str_array_json (er_sourceIds r)
      else if k = ''reasoning'' then map_option JStr (er_reasoning r)
      else if k = ''memoryIds'' then map_option str_array_json (er_memoryIds r)
      else if k = ''diff'' then map_option JStr (er_diff r) else None)"
  by (simp add: result_json_def obj_lookup_append obj_lookup_Cons split: option.split)

text \<open>C11 (round trip). A result written as its JSON object, members in the order of the shape and undefined ones left out, is parsed back by \<open>resultSchema\<close> to the same result.\<close>

lemma resultSchema_parse_result_json: "resultSchema_parse (result_json r) = Inr r"
proof (cases r)
  case (fields d m re s st su)
  then show ?thesis
  by (cases d; cases m; cases re; cases s; cases su)
     (simp_all add: resultSchema_parse_def result_json_def obj_lookup_append obj_lookup_Cons zod_optional_def
        zod_required_def)
qed

text \<open>C12 (schema agreement). The JSON Schema that \<open>getTools\<close> declares for \<open>commit_user_story\<close> accepts exactly the argument values that the zod \<open>resultSchema\<close> parses without an issue.\<close>

theorem tool_schema_agrees:
  "schema_accepts (tool_parameters commit_user_story) v \<longleftrightarrow> (\<exists>r. resultSchema_parse v = Inr r)"
proof (cases v)
  case (JObj kvs)
  show ?thesis
    unfolding JObj resultSchema_parse_ok_iff zod_optional_Inr_ex zod_required_Inr_ex
    by (simp del: schema_accepts.simps
        add: schema_accepts.simps(3) props_accept.simps commit_user_story_def zod_str_ex [symmetric]
          zod_str_array_ex [symmetric] split: option.split)
qed (simp_all add: commit_user_story_def resultSchema_parse_def)

text \<open>C13 (typed parse). A value \<open>resultSchema\<close> accepts is an object, and the result carries exactly its members at the keys of the shape (each with the value it had) and nothing at any other key: unknown keys are stripped.\<close>

theorem resultSchema_parse_typed:
  assumes "resultSchema_parse v = Inr r"
  shows "\<exists>kvs. v = JObj kvs \<and>
           (\<forall>k. js_get (result_json r) k = (if k \<in> set result_keys then obj_lookup kvs k else None))"
proof (cases v)
  case (JObj kvs)
  with assms obtain d m re s st su where
    "zod_optional ''diff'' zod_str kvs = Inr d" "zod_optional ''memoryIds'' zod_str_array kvs = Inr m"
    "zod_optional ''reasoning'' zod_str kvs = Inr re" "zod_optional ''sourceIds'' zod_str_array kvs = Inr s"
    "zod_required ''story'' zod_str kvs = Inr st" "zod_optional ''summary'' zod_str kvs = Inr su"
    "r = \<lparr>er_diff = d, er_memoryIds = m, er_reasoning = re, er_sourceIds = s, er_story = st, er_summary = su\<rparr>"
    by (auto simp: resultSchema_parse_def map_sum_ZodError_Inr sbind_eq_Inr)
  then show ?thesis
    using JObj by (auto simp: js_get_result_json result_keys_def dest!: zod_optional_str_Inr
        zod_optional_str_array_Inr zod_required_str_Inr)
qed (use assms in \<open>simp_all add: resultSchema_parse_def\<close>)

text \<open>C14 (toolCall success). When the runtime answers with tool calls, \<open>toolCall\<close> returns a result exactly when the first call's \<open>arguments\<close> (parsed when they are a JSON text) pass \<open>resultSchema\<close>, and the result is that parse; it holds of every \<open>JSON.parse\<close> that rejects the empty text and reads \<open>{}\<close> as the empty object.\<close>

theorem toolCall_ok_iff:
  assumes "json_parse [] = None" "json_parse ''{}'' = Some (JObj [])"
    and "generateObject (tool_messages render opts) getTools = JArr (c # cs)"
  shows "toolCall render generateObject json_parse opts = Inr r \<longleftrightarrow>
    (case js_get c ''arguments'' of
       Some (JStr s) \<Rightarrow> (\<exists>a. json_parse s = Some a \<and> resultSchema_parse a = Inr r)
     | Some a \<Rightarrow> resultSchema_parse a = Inr r
     | None \<Rightarrow> False)"
  using assms
  by (auto simp: toolCall_def tool_result_def resultSchema_parse_js_or resultSchema_parse_JObj_Nil
      split: option.split json.split)

text \<open>C15 (toolCall errors). When the runtime answers with no tool call, or the first call has no, \<open>null\<close> or empty \<open>arguments\<close>, \<open>toolCall\<close> fails with the zod issue on \<open>story\<close>.\<close>

theorem toolCall_missing_arguments:
  assumes "json_parse ''{}'' = Some (JObj [])"
    and "generateObject (tool_messages render opts) getTools = JArr calls"
    and "calls = [] \<or> js_get (hd calls) ''arguments'' \<in> {None, Some JNull, Some (JStr [])}"
  shows "toolCall render generateObject json_parse opts = Inl (ZodError ''story'')"
  using assms
  by (cases calls) (auto simp: toolCall_def tool_result_def js_or_def resultSchema_parse_JObj_Nil)

text \<open>C16 (prompt sections). Every section \<open>buildUserPrompt\<close> joins is non-empty and has no white space at either end: an absent or blank field is replaced by its placeholder.\<close>

theorem buildUserPrompt_sections_trimmed:
  "list_all (\<lambda>s. s \<noteq> [] \<and> js_trim s = s) (prompt_sections trim_or opts)"
proof -
  have d: "js_trim ''No existing story provided.'' = ''No existing story provided.''"
    "js_trim ''N/A'' = ''N/A''"
    by (simp_all add: js_trim_def js_ws_def)
  have h: "list_all (\<lambda>s. s \<noteq> [] \<and> js_trim s = s)
    [''## Existing Story (baseline)'', ''## Retrieved Memories / Signals'',
     ''## Recent Events or Highlights'', ''## User Provided Notes or Requests'',
     ''## Extra Profile Context'']"
    by (simp add: js_trim_def js_ws_def)
  then show ?thesis
    by (simp add: prompt_sections_def js_trim_nonempty_fixed d)
qed

text \<open>C17 (evaluation prompt agrees). With no additional messages and template fields that carry no surrounding white space, the evaluation's \<open>generatePrompt\<close> sends the same messages as \<open>toolCall\<close>.\<close>

theorem generatePrompt_agrees:
  assumes "tp_additionalMessages opts = []"
    and "list_all (pred_option (\<lambda>s. js_trim s = s))
      [tp_existingStory opts, tp_retrievedMemories opts, tp_recentEvents opts,
       tp_storyNotes opts, tp_userProfile opts]"
  shows "generatePrompt render opts = tool_messages render opts"
  using assms
  by (simp add: generatePrompt_def tool_messages_def eval_userSections_def buildUserPrompt_def
      prompt_sections_def trim_or_trimmed)

text \<open>C18 (evaluation prompt diverges). For an existing story made only of white space, and the other fields trimmed, the evaluation's user message is production's with one change: where \<open>buildUserPrompt\<close> writes the placeholder \<open>No existing story provided.\<close> under the baseline header, \<open>generatePrompt\<close> writes the blank text; every other section is the same.\<close>

theorem generatePrompt_blank_story:
  assumes "tp_existingStory opts = Some s" "s \<noteq> []" "list_all js_ws s"
    and "list_all (pred_option (\<lambda>s. js_trim s = s))
      [tp_retrievedMemories opts, tp_recentEvents opts, tp_storyNotes opts, tp_userProfile opts]"
  shows "buildUserPrompt opts =
           ''## Existing Story (baseline)'' @ nl2 @ ''No existing story provided.'' @ nl2 @
           js_join nl2 (drop 2 (prompt_sections str_or opts)) \<and>
         eval_userSections opts =
           ''## Existing Story (baseline)'' @ nl2 @ s @ nl2 @
           js_join nl2 (drop 2 (prompt_sections str_or opts))"
proof -
  have t: "trim_or (tp_existingStory opts) ''No existing story provided.'' = ''No existing story provided.''"
    using assms(1,3) by (simp add: trim_or_def js_trim_eq_Nil_iff list_all_iff)
  have "drop 2 (prompt_sections trim_or opts) = drop 2 (prompt_sections str_or opts)"
    using assms(4) by (simp add: prompt_sections_def trim_or_trimmed)
  then show ?thesis
    unfolding eval_userSections_def buildUserPrompt_def prompt_sections_join t
    using assms(1,2) by simp
qed

lemma resultSchema_parse_story:
  assumes "resultSchema_parse v = Inr r"
  shows "\<exists>kvs. v = JObj kvs \<and> obj_lookup kvs ''story'' = Some (JStr (er_story r))"
proof (cases v)
  case (JObj kvs)
  with assms obtain st where "zod_required ''story'' zod_str kvs = Inr st" "er_story r = st"
    by (auto simp: resultSchema_parse_def map_sum_ZodError_Inr sbind_eq_Inr)
  with JObj show ?thesis by (auto dest: zod_required_str_Inr)
qed (use assms in \<open>simp_all add: resultSchema_parse_def\<close>)

text \<open>C19 (evaluation assertion is not stricter). For a single call in the flat shape the extractor reads (\<open>name\<close> and \<open>arguments\<close> at the top, no \<open>function\<close> member), whenever \<open>toolCall\<close> accepts the answer and the story is longer than ten code units once trimmed, the evaluation's tool-call assertion accepts it too. It holds of every \<open>JSON.parse\<close> that rejects the empty text and reads \<open>{}\<close> as the empty object.\<close>

theorem eval_accepts_extracted_story:
  assumes jp: "json_parse [] = None" "json_parse ''{}'' = Some (JObj [])"
    and c: "js_get c ''function'' = None" "js_get c ''name'' = Some (JStr ''commit_user_story'')"
    and ok: "tool_result json_parse (JArr [c]) = Inr r"
    and len: "10 < js_length (js_trim (er_story r))"
  shows "eval_toolCallAssert json_parse (JArr [c])"
proof -
  have args: "\<exists>a. (case js_get c ''arguments'' of
                    Some (JStr s) \<Rightarrow> json_parse s
                  | Some a \<Rightarrow> Some (js_or a (JObj []))
                  | None \<Rightarrow> Some (JObj [])) = Some a \<and> resultSchema_parse a = Inr r"
  proof (cases "js_get c ''arguments''")
    case None
    with ok show ?thesis by (simp add: tool_result_def resultSchema_parse_JObj_Nil)
  next
    case (Some a)
    show ?thesis
    proof (cases a)
      case (JStr s)
      with ok Some jp show ?thesis
        by (cases "s = []") (auto simp: tool_result_def resultSchema_parse_JObj_Nil
            resultSchema_parse_js_or split: option.splits)
    qed (use ok Some in \<open>auto simp: tool_result_def\<close>)
  qed
  then obtain a kvs where a: "(case js_get c ''arguments'' of
                    Some (JStr s) \<Rightarrow> json_parse s
                  | Some a \<Rightarrow> Some (js_or a (JObj []))
                  | None \<Rightarrow> Some (JObj [])) = Some a"
      and kvs: "a = JObj kvs" "obj_lookup kvs ''story'' = Some (JStr (er_story r))"
    using resultSchema_parse_story by blast
  show ?thesis
    using a kvs c len by (simp add: eval_toolCallAssert_def eval_call_ok_def)
qed

end
