(* ===== verification/Story_Service.thy ===== *)
theory Story_Service
  imports Story_Model Story_Extractor
begin

text \<open>
  \<open>UserStoryService.composeStory\<close> and \<open>buildUserStoryJobInput\<close> of
  \<open>src/server/services/memory/userStory/service.ts\<close>. \<open>composeStory\<close> asks the
  extractor for a story (\<open>toolCall\<close> of \<open>Story_Extractor\<close>) and persists it with
  \<open>upsertStory\<close> of \<open>Story_Model\<close>; \<open>buildUserStoryJobInput\<close> reads the user's
  latest story and twenty newest memories and assembles the retrieved context.

  The model runtime answers each call through \<open>runtime u\<close>, indexed by the user the
  call is made for, so that two calls may be answered differently. The memory
  tables other than the story tables, the XML context providers and
  \<open>Date.toISOString\<close> are the read-only environment \<open>memory_env\<close>.
\<close>

record story_payload =
  pl_existingStory :: "string option"
  pl_language :: "string option"
  pl_memoryIds :: "string list option"
  pl_metadata :: "metadata option"
  pl_recentEvents :: "string option"
  pl_retrievedMemories :: "string option"
  pl_sourceIds :: "string list option"
  pl_storyNotes :: "string option"
  pl_userId :: user_id
  pl_userProfile :: "string option"
  pl_username :: "string option"

record compose_result =
  cr_agentResult :: extraction_result
  cr_diff :: "story_diff option"
  cr_document :: "story_document option"

text \<open>The collaborators of the service: the extractor's runtime and template engine.\<close>

record story_agent =
  ag_render :: "template_props \<Rightarrow> string"
  ag_runtime :: "user_id \<Rightarrow> message list \<Rightarrow> tool list \<Rightarrow> json"
  ag_json_parse :: "string \<Rightarrow> json option"
  ag_preferredLanguage :: "string option"

subsection \<open>composeStory\<close>

text \<open>The options of \<open>extractor.toolCall\<close>.\<close>

definition story_options :: "string option \<Rightarrow> story_payload \<Rightarrow> template_props" where
  "story_options preferredLanguage pl =
     \<lparr>tp_existingStory = str_or_undef (pl_existingStory pl),
      tp_language = (if truthy_str (pl_language pl) then pl_language pl else preferredLanguage),
      tp_recentEvents = pl_recentEvents pl,
      tp_retrievedMemories = pl_retrievedMemories pl,
      tp_storyNotes = pl_storyNotes pl,
      tp_userProfile = pl_userProfile pl,
      tp_username = pl_username pl,
      tp_additionalMessages = []\<rparr>"

definition story_title :: "story_payload \<Rightarrow> string" where
  "story_title pl = ''User Story for '' @ str_or (pl_username pl) ''User''"

text \<open>The parameters of \<open>storyModel.upsertStory\<close>; \<open>capturedAt\<close> is \<open>new Date()\<close>.\<close>

definition compose_params :: "story_payload \<Rightarrow> extraction_result \<Rightarrow> timestamp \<Rightarrow> upsert_params" where
  "compose_params pl r now =
     \<lparr>up_capturedAt = Some now,
      up_diff = er_diff r,
      up_memoryIds = nullish_or (pl_memoryIds pl) (er_memoryIds r),
      up_metadata = pl_metadata pl,
      up_reasoning = er_reasoning r,
      up_snapshot = Some (er_story r),
      up_sourceIds = nullish_or (pl_sourceIds pl) (er_sourceIds r),
      up_story = er_story r,
      up_summary = er_summary r,
      up_title = Some (story_title pl)\<rparr>"

definition composeStory ::
  "story_agent \<Rightarrow> story_payload \<Rightarrow> story_db \<Rightarrow> error + (compose_result \<times> story_db)" where
  "composeStory ag pl db =
     sbind (toolCall (ag_render ag) (ag_runtime ag (pl_userId pl)) (ag_json_parse ag)
              (story_options (ag_preferredLanguage ag) pl)) (\<lambda>r.
     sbind (upsertStory (pl_userId pl) (compose_params pl r (db_now db)) db) (\<lambda>(res, db').
     Inr (\<lparr>cr_agentResult = r, cr_diff = res_diff res, cr_document = res_document res\<rparr>, db')))"

subsection \<open>buildUserStoryJobInput\<close>

text \<open>A row of \<open>userMemories\<close>, the columns the job reads.\<close>

record user_memory =
  um_id :: string
  um_userId :: user_id
  um_capturedAt :: "timestamp option"
  um_title :: "string option"
  um_summary :: "string option"
  um_details :: "string option"

record memory_env =
  me_memories :: "user_memory list"
  me_isoString :: "timestamp \<Rightarrow> string"
  me_contextXml :: "user_id \<Rightarrow> string"
  me_identityXml :: "user_id \<Rightarrow> string"

record job_input =
  ji_existingStory :: "string option"
  ji_memoryIds :: "string list"
  ji_retrievedMemories :: "string option"

text \<open>
  \<open>findMany({ limit: 20, orderBy: [desc(capturedAt)], where: eq(userId, u) })\<close>:
  PostgreSQL sorts \<open>NULL\<close> first in a descending order; rows with equal keys keep
  table order.
\<close>

definition recent_memories :: "memory_env \<Rightarrow> user_id \<Rightarrow> user_memory list" where
  "recent_memories env u =
     take 20 (sort_key (\<lambda>m. case um_capturedAt m of None \<Rightarrow> (0::nat, 0) | Some t \<Rightarrow> (1, - t))
       (filter (\<lambda>m. um_userId m = u) (me_memories env)))"

definition nl :: string where
  "nl = [char_of (10::nat)]"

text \<open>The em dash of the line format, three bytes in UTF-8.\<close>

definition em_dash :: string where
  "em_dash = map char_of [226::nat, 128, 148]"

definition memory_line :: "memory_env \<Rightarrow> user_memory \<Rightarrow> string" where
  "memory_line env m =
     js_trim (''- ['' @ (case um_capturedAt m of None \<Rightarrow> [] | Some t \<Rightarrow> me_isoString env t) @ ''] '' @
              str_or (um_title m) ''Untitled memory'' @ '' '' @ em_dash @ '' '' @
              (if truthy_str (um_summary m) then the (um_summary m) else str_or (um_details m) []))"

definition assembled_context :: "string \<Rightarrow> string \<Rightarrow> string \<Rightarrow> string option" where
  "assembled_context lines ctx ident =
     (let s = js_join nl2 (filter (\<lambda>x. x \<noteq> [])
                [if lines = [] then [] else ''## Recent Memories'' @ nl @ lines, ctx, ident])
      in if s = [] then None else Some s)"

definition buildUserStoryJobInput :: "memory_env \<Rightarrow> user_id \<Rightarrow> story_db \<Rightarrow> job_input" where
  "buildUserStoryJobInput env u db =
     (let latest = getLatestStoryDocument u db;
          mems = recent_memories env u;
          lines = js_join nl (map (memory_line env) mems)
      in \<lparr>ji_existingStory = str_or_undef (Option.bind latest doc_story),
          ji_memoryIds = map um_id mems,
          ji_retrievedMemories = assembled_context lines (me_contextXml env u) (me_identityXml env u)\<rparr>)"

text \<open>\<open>{ ...context, userId }\<close>, the payload both routes pass to \<open>composeStory\<close>.\<close>

definition job_payload :: "job_input \<Rightarrow> user_id \<Rightarrow> story_payload" where
  "job_payload ji u =
     \<lparr>pl_existingStory = ji_existingStory ji, pl_language = None,
      pl_memoryIds = Some (ji_memoryIds ji), pl_metadata = None, pl_recentEvents = None,
      pl_retrievedMemories = ji_retrievedMemories ji, pl_sourceIds = None, pl_storyNotes = None,
      pl_userId = u, pl_userProfile = None, pl_username = None\<rparr>"

subsection \<open>Lemmas\<close>

lemma composeStory_agent:
  assumes "toolCall (ag_render ag) (ag_runtime ag (pl_userId pl)) (ag_json_parse ag)
             (story_options (ag_preferredLanguage ag) pl) = Inr r"
  shows "composeStory ag pl db =
           sbind (upsertStory (pl_userId pl) (compose_params pl r (db_now db)) db) (\<lambda>(res, db').
             Inr (\<lparr>cr_agentResult = r, cr_diff = res_diff res, cr_document = res_document res\<rparr>, db'))"
  using assms by (simp add: composeStory_def)

lemma composeStory_Inr:
  assumes "composeStory ag pl db = Inr (c, db')"
  obtains r res where
    "toolCall (ag_render ag) (ag_runtime ag (pl_userId pl)) (ag_json_parse ag)
       (story_options (ag_preferredLanguage ag) pl) = Inr r"
    "upsertStory (pl_userId pl) (compose_params pl r (db_now db)) db = Inr (res, db')"
    "c = \<lparr>cr_agentResult = r, cr_diff = res_diff res, cr_document = res_document res\<rparr>"
  using assms by (auto simp: composeStory_def sbind_eq_Inr)

lemma upsert_written_given:
  assumes "upsert_written uid p db = (d, db1)"
  shows "(up_title p \<noteq> None \<longrightarrow> doc_title d = store_title (up_title p)) \<and>
         (up_memoryIds p \<noteq> None \<longrightarrow> doc_memoryIds d = up_memoryIds p)"
  using assms by (auto simp: upsert_written_def updated_document_def new_document_def split: option.splits)



text \<open>The prefix \<open>User Story for \<close> is 15 ASCII characters.\<close>

lemma story_title_fits:
  "varchar_fits 255 (story_title pl) \<longleftrightarrow> varchar_fits 240 (str_or (pl_username pl) ''User'')"
proof -
  have "utf8_drop (length ''User Story for '' + 240) (''User Story for '' @ str_or (pl_username pl) ''User'') =
        utf8_drop 240 (str_or (pl_username pl) ''User'')"
    by (rule utf8_drop_ascii_prefix) simp
  then show ?thesis by (simp add: story_title_def varchar_fits_def)
qed

lemma upsertStory_diff_shape:
  assumes wf: "story_db_wf db" and r: "upsertStory uid p db = Inr (res, db')"
  shows "res_diff res = (if has_diff p then Some (the (res_diff res)) else None) \<and>
         db_diffs db' = db_diffs db @ (if has_diff p then [the (res_diff res)] else []) \<and>
         (\<forall>f. res_diff res = Some f \<longrightarrow> diff_snapshot f = nullish_or (up_snapshot p) (Some (up_story p)) \<and>
              diff_diff f = up_diff p \<and> diff_memoryIds f = up_memoryIds p)"
proof -
  obtain d db1 where w: "upsert_written uid p db = (d, db1)" and ok: "\<not> upsert_fails uid p db"
      and rd: "res_diff res = (if has_diff p then Some (new_diff uid p (find_user_document uid db) d (db_next_id db1) (db_now db1)) else None)"
      and ds: "db_diffs db' = db_diffs db1 @ (if has_diff p then [new_diff uid p (find_user_document uid db) d (db_next_id db1) (db_now db1)] else [])"
    using upsertStory_Inr_shape [OF wf r] by metis
  have "db_diffs db1 = db_diffs db" using upsert_written_facts [OF wf ok w] by blast
  then show ?thesis using rd ds by (auto simp: new_diff_def)
qed

lemma compose_params_title_ok:
  assumes "pl_username pl = None"
  shows "varchar255_ok (up_title (compose_params pl r now))"
proof -
  have "varchar_fits 240 ''User''" by (simp add: varchar_fits_def utf8_cont_def)
  then show ?thesis using assms by (simp add: compose_params_def story_title_fits)
qed

lemma composeStory_ok:
  assumes wf: "story_db_wf db"
    and a: "toolCall (ag_render ag) (ag_runtime ag (pl_userId pl)) (ag_json_parse ag)
              (story_options (ag_preferredLanguage ag) pl) = Inr r"
    and n: "pl_username pl = None"
    and u: "pl_userId pl \<in> set (db_users db)" and v: "story_version db (pl_userId pl) < int4_max"
  shows "\<exists>c db'. composeStory ag pl db = Inr (c, db') \<and> cr_document c \<noteq> None \<and> story_db_wf db' \<and>
           db_users db' = db_users db \<and>
           (\<forall>x. story_version db' x = (if x = pl_userId pl then story_version db x + 1 else story_version db x))"
proof -
  let ?p = "compose_params pl r (db_now db)"
  have "\<not> upsert_fails (pl_userId pl) ?p db"
    using compose_params_title_ok [OF n] u v by (simp add: upsert_fails_def story_version_next)
  then obtain res db' where up: "upsertStory (pl_userId pl) ?p db = Inr (res, db')"
    using upsertStory_ok [OF wf] by blast
  have "story_db_wf db' \<and> res_document res \<noteq> None" using upsertStory_post [OF wf up] by auto
  moreover have "db_users db' = db_users db" by (rule upsertStory_users [OF wf up])
  moreover have "\<forall>x. story_version db' x = (if x = pl_userId pl then story_version db x + 1 else story_version db x)"
    using story_version_abs_commit [OF upsertStory_abs [OF wf up]] by blast
  ultimately show ?thesis using up by (simp add: composeStory_agent [OF a])
qed

lemma job_payload_fields [simp]:
  "pl_userId (job_payload ji u) = u" "pl_username (job_payload ji u) = None"
  by (simp_all add: job_payload_def)

lemma buildUserStoryJobInput_fields:
  "ji_memoryIds (buildUserStoryJobInput env u db) = map um_id (recent_memories env u)"
  "ji_existingStory (buildUserStoryJobInput env u db) =
     str_or_undef (Option.bind (getLatestStoryDocument u db) doc_story)"
  "ji_retrievedMemories (buildUserStoryJobInput env u db) =
     assembled_context (js_join nl (map (memory_line env) (recent_memories env u)))
       (me_contextXml env u) (me_identityXml env u)"
  by (simp_all add: buildUserStoryJobInput_def Let_def)


text \<open>C21 (composeStory persists). A successful \<open>composeStory\<close> leaves the user with one document holding the agent's story under the title \<open>User Story for <name>\<close> as \<open>varchar(255)\<close> stores it (its first 255 code points) at the next version, and whenever the story is non-empty it appends exactly one diff whose snapshot is that story, even when the agent reported no diff.\<close>

theorem composeStory_persists:
  assumes wf: "story_db_wf db" and c: "composeStory ag pl db = Inr (c, db')"
  shows "\<exists>d. cr_document c = Some d \<and> find_user_document (pl_userId pl) db' = Some d \<and>
           doc_story d = Some (er_story (cr_agentResult c)) \<and> doc_title d = Some (utf8_take 255 (story_title pl)) \<and>
           doc_version d = next_version (find_user_document (pl_userId pl) db) \<and>
           (er_story (cr_agentResult c) \<noteq> [] \<longrightarrow>
              (\<exists>f. cr_diff c = Some f \<and> db_diffs db' = db_diffs db @ [f] \<and>
                   diff_snapshot f = Some (er_story (cr_agentResult c))))"
proof -
  obtain r res where a: "upsertStory (pl_userId pl) (compose_params pl r (db_now db)) db = Inr (res, db')"
      and cc: "c = \<lparr>cr_agentResult = r, cr_diff = res_diff res, cr_document = res_document res\<rparr>"
    using composeStory_Inr [OF c] by metis
  let ?p = "compose_params pl r (db_now db)"
  obtain d db1 where w: "upsert_written (pl_userId pl) ?p db = (d, db1)"
      and doc: "res_document res = Some d"
    using upsertStory_Inr_shape [OF wf a] by metis
  have post: "find_user_document (pl_userId pl) db' = Some d \<and>
      doc_version d = next_version (find_user_document (pl_userId pl) db) \<and> doc_story d = Some (er_story r)"
    using upsertStory_post [OF wf a] doc by (auto simp: compose_params_def)
  have title: "doc_title d = Some (utf8_take 255 (story_title pl))"
    using upsert_written_given [OF w] by (simp add: compose_params_def)
  have "er_story r \<noteq> [] \<Longrightarrow> has_diff ?p" by (simp add: has_diff_def compose_params_def)
  then have "er_story r \<noteq> [] \<Longrightarrow> \<exists>f. res_diff res = Some f \<and> db_diffs db' = db_diffs db @ [f] \<and>
                diff_snapshot f = Some (er_story r)"
    using upsertStory_diff_shape [OF wf a] by (auto simp: compose_params_def)
  then show ?thesis using post title doc cc by auto
qed

text \<open>C22 (route memory ids). In the route flows (payload built by \<open>buildUserStoryJobInput\<close>), the document and diff written carry as \<open>memoryIds\<close> the ids of the user's recent memories, never the ids the agent returned.\<close>

theorem job_composeStory_memoryIds:
  assumes wf: "story_db_wf db"
    and c: "composeStory ag (job_payload (buildUserStoryJobInput env u db) u) db = Inr (c, db')"
  shows "\<exists>d. cr_document c = Some d \<and> find_user_document u db' = Some d \<and>
           doc_memoryIds d = Some (map um_id (recent_memories env u)) \<and>
           (\<forall>f. cr_diff c = Some f \<longrightarrow> diff_memoryIds f = Some (map um_id (recent_memories env u)))"
proof -
  let ?pl = "job_payload (buildUserStoryJobInput env u db) u"
  obtain r res where a: "upsertStory u (compose_params ?pl r (db_now db)) db = Inr (res, db')"
      and cc: "c = \<lparr>cr_agentResult = r, cr_diff = res_diff res, cr_document = res_document res\<rparr>"
    using composeStory_Inr [OF c] by (metis job_payload_fields(1))
  let ?p = "compose_params ?pl r (db_now db)"
  have m: "up_memoryIds ?p = Some (map um_id (recent_memories env u))"
    by (simp add: compose_params_def job_payload_def buildUserStoryJobInput_fields)
  obtain d db1 where w: "upsert_written u ?p db = (d, db1)" and doc: "res_document res = Some d"
    using upsertStory_Inr_shape [OF wf a] by metis
  have "find_user_document u db' = Some d" using upsertStory_post [OF wf a] doc by auto
  moreover have "doc_memoryIds d = Some (map um_id (recent_memories env u))"
    using upsert_written_given [OF w] m by simp
  moreover have "\<forall>f. res_diff res = Some f \<longrightarrow> diff_memoryIds f = Some (map um_id (recent_memories env u))"
    using upsertStory_diff_shape [OF wf a] m by simp
  ultimately show ?thesis using doc cc by simp
qed

text \<open>C23 (job input bounds). \<open>buildUserStoryJobInput\<close> passes at most 20 memory ids, all of them ids of the user's own memories, and never an empty string as retrieved context or as existing story.\<close>

theorem buildUserStoryJobInput_bounds:
  "length (ji_memoryIds (buildUserStoryJobInput env u db)) \<le> 20 \<and>
   set (ji_memoryIds (buildUserStoryJobInput env u db)) \<subseteq> um_id ` {m \<in> set (me_memories env). um_userId m = u} \<and>
   ji_retrievedMemories (buildUserStoryJobInput env u db) \<noteq> Some [] \<and>
   ji_existingStory (buildUserStoryJobInput env u db) \<noteq> Some []"
proof -
  have "set (recent_memories env u) \<subseteq> {m \<in> set (me_memories env). um_userId m = u}"
    by (auto simp: recent_memories_def dest: in_set_takeD)
  then have "set (map um_id (recent_memories env u)) \<subseteq> um_id ` {m \<in> set (me_memories env). um_userId m = u}"
    by auto
  moreover have "length (recent_memories env u) \<le> 20" by (simp add: recent_memories_def)
  moreover have "assembled_context l c i \<noteq> Some []" for l c i
    by (simp add: assembled_context_def Let_def)
  moreover have "str_or_undef x \<noteq> Some []" for x by (cases x) simp_all
  ultimately show ?thesis by (simp only: buildUserStoryJobInput_fields length_map) simp
qed

end
