(* ===== verification/Story_Routes.thy ===== *)
theory Story_Routes
  imports Story_Service
begin

text \<open>
  The two entry points that fan a batch of users out to the service:
  \<open>app/(backend)/api/workflows/user-story/process/route.ts\<close> (an Upstash workflow)
  and \<open>app/(backend)/api/webhooks/user-story/route.ts\<close> (a webhook guarded by
  configured headers). Both parse \<open>{ userId?, userIds? }\<close> with zod, normalise the
  ids (\<open>Array.from(new Set(...)).filter(Boolean)\<close>), and for each id in turn build
  the job input and compose the story. Each \<open>composeStory\<close> is its own
  transaction: a failure stops the loop, and what earlier users committed stays.
\<close>

record route_payload =
  rp_userId :: "string option"
  rp_userIds :: "string list option"

text \<open>\<open>z.object({ userId: z.string().optional(), userIds: z.array(z.string()).optional() })\<close>.\<close>

definition payload_parse :: "json \<Rightarrow> error + route_payload" where
  "payload_parse v =
     (case v of
        JObj kvs \<Rightarrow>
          map_sum ZodError id
           (sbind (zod_optional ''userId'' zod_str kvs) (\<lambda>u.
            sbind (zod_optional ''userIds'' zod_str_array kvs) (\<lambda>us.
              Inr \<lparr>rp_userId = u, rp_userIds = us\<rparr>)))
      | _ \<Rightarrow> Inl (ZodError []))"

definition normalize_userIds :: "route_payload \<Rightarrow> user_id list" where
  "normalize_userIds p =
     filter (\<lambda>u. u \<noteq> [])
       (array_from_set (opt_default [] (rp_userIds p) @
          (if truthy_str (rp_userId p) then [the (rp_userId p)] else [])))"

text \<open>
  The loop \<open>for (const userId of userIds)\<close> of both routes: build the job input,
  compose the story, then make the route's result item (\<open>results.push(...)\<close>),
  which may itself throw. The state returned with an error is the state the
  committed transactions left.
\<close>

fun process_users ::
  "story_agent \<Rightarrow> memory_env \<Rightarrow> (user_id \<Rightarrow> compose_result \<Rightarrow> error + 'a) \<Rightarrow> user_id list \<Rightarrow>
   story_db \<Rightarrow> (error + 'a list) \<times> story_db" where
  "process_users ag env item [] db = (Inr [], db)"
| "process_users ag env item (u # us) db =
     (case composeStory ag (job_payload (buildUserStoryJobInput env u db) u) db of
        Inl e \<Rightarrow> (Inl e, db)
      | Inr (c, db1) \<Rightarrow>
          (case item u c of
             Inl e \<Rightarrow> (Inl e, db1)
           | Inr x \<Rightarrow>
               (case process_users ag env item us db1 of
                  (Inl e, db2) \<Rightarrow> (Inl e, db2)
                | (Inr xs, db2) \<Rightarrow> (Inr (x # xs), db2))))"

subsection \<open>The workflow route\<close>

record workflow_item =
  wi_diffId :: "row_id option"
  wi_documentId :: row_id
  wi_userId :: user_id
  wi_version :: int

record workflow_response =
  wr_message :: string
  wr_processedUsers :: nat
  wr_results :: "workflow_item list"

text \<open>\<open>result.document.id\<close> throws when the upsert returned no document.\<close>

definition workflow_item :: "user_id \<Rightarrow> compose_result \<Rightarrow> error + workflow_item" where
  "workflow_item u c =
     (case cr_document c of
        None \<Rightarrow> Inl (TypeError ''Cannot read properties of undefined (reading id)'')
      | Some d \<Rightarrow> Inr \<lparr>wi_diffId = map_option diff_id (cr_diff c), wi_documentId = doc_id d,
                       wi_userId = u, wi_version = doc_version d\<rparr>)"

text \<open>\<open>context.requestPayload || {}\<close>, \<open>None\<close> standing for \<open>undefined\<close>.\<close>

definition workflow_POST ::
  "story_agent \<Rightarrow> memory_env \<Rightarrow> json option \<Rightarrow> story_db \<Rightarrow> (error + workflow_response) \<times> story_db" where
  "workflow_POST ag env requestPayload db =
     (case payload_parse (case requestPayload of None \<Rightarrow> JObj [] | Some v \<Rightarrow> js_or v (JObj [])) of
        Inl e \<Rightarrow> (Inl e, db)
      | Inr p \<Rightarrow>
          (let userIds = normalize_userIds p
           in if userIds = []
              then (Inr \<lparr>wr_message = ''userId or userIds is required'', wr_processedUsers = 0,
                         wr_results = []\<rparr>, db)
              else (case process_users ag env workflow_item userIds db of
                      (Inl e, db') \<Rightarrow> (Inl e, db')
                    | (Inr items, db') \<Rightarrow>
                        (Inr \<lparr>wr_message = ''User story processed via workflow.'',
                              wr_processedUsers = length userIds, wr_results = items\<rparr>, db'))))"

subsection \<open>The webhook route\<close>

datatype webhook_response =
    Forbidden string
  | BadRequest string
  | ServerError error
  | Generated "(user_id \<times> compose_result) list"

fun webhook_status :: "webhook_response \<Rightarrow> nat" where
  "webhook_status (Forbidden _) = 403"
| "webhook_status (BadRequest _) = 400"
| "webhook_status (ServerError _) = 500"
| "webhook_status (Generated _) = 200"

text \<open>
  The configured \<open>webhookHeaders\<close> in order; the first whose request header
  (\<open>req.headers.get\<close>, \<open>None\<close> for \<open>null\<close>) differs is reported.
\<close>

definition header_mismatch :: "(string \<times> string) list \<Rightarrow> (string \<Rightarrow> string option) \<Rightarrow> string option" where
  "header_mismatch conf hdr = map_option fst (List.find (\<lambda>(k, v). hdr k \<noteq> Some v) conf)"

definition webhook_item :: "user_id \<Rightarrow> compose_result \<Rightarrow> error + (user_id \<times> compose_result)" where
  "webhook_item u c = Inr (u, c)"

definition apostrophe :: string where
  "apostrophe = [char_of (39::nat)]"

text \<open>
  \<open>req.json()\<close> parses the body as \<open>JSON.parse\<close> does; every error thrown inside
  the \<open>try\<close> block is a 500 response carrying it.
\<close>

definition webhook_POST ::
  "story_agent \<Rightarrow> memory_env \<Rightarrow> (string \<times> string) list \<Rightarrow> (string \<Rightarrow> string option) \<Rightarrow> string \<Rightarrow>
   story_db \<Rightarrow> webhook_response \<times> story_db" where
  "webhook_POST ag env conf hdr body db =
     (case header_mismatch conf hdr of
        Some k \<Rightarrow> (Forbidden (''Unauthorized: Missing or invalid header '' @ apostrophe @ k @ apostrophe), db)
      | None \<Rightarrow>
          (case ag_json_parse ag body of
             None \<Rightarrow> (ServerError JsonSyntaxError, db)
           | Some j \<Rightarrow>
               (case payload_parse j of
                  Inl e \<Rightarrow> (ServerError e, db)
                | Inr p \<Rightarrow>
                    (let userIds = normalize_userIds p
                     in if userIds = [] then (BadRequest ''userId or userIds is required'', db)
                        else (case process_users ag env webhook_item userIds db of
                                (Inl e, db') \<Rightarrow> (ServerError e, db')
                              | (Inr rs, db') \<Rightarrow> (Generated rs, db'))))))"

subsection \<open>Lemmas\<close>

lemma process_users_total:
  assumes "story_db_wf db" "distinct us"
    and ans: "\<forall>u msgs. \<exists>r. tool_result (ag_json_parse ag) (ag_runtime ag u msgs getTools) = Inr r"
    and "\<forall>u \<in> set us. u \<in> set (db_users db) \<and> story_version db u < int4_max"
    and item: "\<forall>u c. cr_document c \<noteq> None \<longrightarrow> (\<exists>x. item u c = Inr x)"
  shows "\<exists>xs db'. process_users ag env item us db = (Inr xs, db') \<and> length xs = length us \<and>
           story_db_wf db' \<and> db_users db' = db_users db \<and>
           (\<forall>x. story_version db' x = (if x \<in> set us then story_version db x + 1 else story_version db x))"
  using assms(1,2,4)
proof (induction us arbitrary: db)
  case (Cons u us)
  let ?pl = "job_payload (buildUserStoryJobInput env u db) u"
  obtain r where a: "toolCall (ag_render ag) (ag_runtime ag (pl_userId ?pl)) (ag_json_parse ag)
      (story_options (ag_preferredLanguage ag) ?pl) = Inr r"
    using ans by (auto simp: toolCall_def)
  obtain c db1 where c: "composeStory ag ?pl db = Inr (c, db1)" and cd: "cr_document c \<noteq> None"
      and wf1: "story_db_wf db1" and us1: "db_users db1 = db_users db"
      and v1: "\<forall>x. story_version db1 x = (if x = u then story_version db x + 1 else story_version db x)"
    using composeStory_ok [OF Cons.prems(1) a] Cons.prems(3) by auto
  obtain x where x: "item u c = Inr x" using item cd by blast
  have "\<forall>u' \<in> set us. u' \<in> set (db_users db1) \<and> story_version db1 u' < int4_max"
    using Cons.prems(2,3) us1 v1 by auto
  then obtain xs db' where rec: "process_users ag env item us db1 = (Inr xs, db')"
      "length xs = length us" "story_db_wf db'" "db_users db' = db_users db1"
      "\<forall>y. story_version db' y = (if y \<in> set us then story_version db1 y + 1 else story_version db1 y)"
    using Cons.IH [OF wf1] Cons.prems(2) by auto
  show ?case using c x rec us1 v1 Cons.prems(2) by auto
qed simp

lemma process_users_keys:
  "process_users ag env item us db = (Inr xs, db') \<Longrightarrow> (\<forall>u c x. item u c = Inr x \<longrightarrow> key x = u) \<Longrightarrow>
   map key xs = us"
proof (induction us arbitrary: db xs)
  case (Cons u us)
  then show ?case
    by (auto split: sum.splits prod.splits)
qed simp

lemma process_users_prefix:
  assumes "process_users ag env item us db = (Inl e, db')" "\<forall>u c. \<exists>x. item u c = Inr x"
  shows "\<exists>k < length us. \<exists>xs. process_users ag env item (take k us) db = (Inr xs, db')"
  using assms
proof (induction us arbitrary: db)
  case (Cons u us)
  show ?case
  proof (cases "composeStory ag (job_payload (buildUserStoryJobInput env u db) u) db")
    case (Inl e')
    with Cons.prems show ?thesis by (intro exI [of _ 0]) simp
  next
    case (Inr cd)
    obtain c db1 where cd: "cd = (c, db1)" by (cases cd)
    obtain x where x: "item u c = Inr x" using Cons.prems(2) by blast
    have "process_users ag env item us db1 = (Inl e, db')"
      using Cons.prems(1) Inr cd x by (auto split: prod.splits sum.splits)
    then obtain k xs where "k < length us" "process_users ag env item (take k us) db1 = (Inr xs, db')"
      using Cons.IH Cons.prems(2) by blast
    then show ?thesis using Inr cd x by (intro exI [of _ "Suc k"]) auto
  qed
qed simp

text \<open>C24 (id normalisation). The ids both routes process are the non-empty ids of \<open>userIds\<close> followed by \<open>userId\<close>, each once, at its first occurrence: \<open>Array.from(new Set(...)).filter(Boolean)\<close> equals the reference \<open>remdups_first\<close> of the filtered list.\<close>

theorem normalize_userIds_dedup:
  "normalize_userIds p =
     remdups_first (filter (\<lambda>u. u \<noteq> [])
       (opt_default [] (rp_userIds p) @ (case rp_userId p of None \<Rightarrow> [] | Some u \<Rightarrow> [u]))) \<and>
   distinct (normalize_userIds p)"
proof -
  let ?P = "\<lambda>u. u \<noteq> []" and ?A = "opt_default [] (rp_userIds p)"
  let ?B = "if truthy_str (rp_userId p) then [the (rp_userId p)] else []"
    and ?C = "case rp_userId p of None \<Rightarrow> [] | Some u \<Rightarrow> [u]"
  have fB: "filter ?P ?B = filter ?P ?C" by (cases "rp_userId p") simp_all
  have "normalize_userIds p = filter ?P (remdups_first (?A @ ?B))"
    by (simp only: normalize_userIds_def array_from_set_def set_add_all_remdups_first distinct.simps(1) append_Nil)
  also have "\<dots> = remdups_first (filter ?P (?A @ ?B))" by (simp only: remdups_first_filter)
  also have "\<dots> = remdups_first (filter ?P (?A @ ?C))" by (simp only: filter_append fB)
  finally show ?thesis by simp
qed

text \<open>C25 (workflow completes). When the runtime answers every call with valid tool arguments and every requested user has a user row and a version below the 32-bit limit, the workflow returns, reports every normalised user as processed in order, and bumps each of their story versions by exactly one, leaving every other user's version unchanged.\<close>

theorem workflow_processes_every_user:
  assumes wf: "story_db_wf db"
    and p: "payload_parse (js_or v (JObj [])) = Inr p" and ne: "normalize_userIds p \<noteq> []"
    and ans: "\<forall>u msgs. \<exists>r. tool_result (ag_json_parse ag) (ag_runtime ag u msgs getTools) = Inr r"
    and users: "\<forall>u \<in> set (normalize_userIds p). u \<in> set (db_users db) \<and> story_version db u < int4_max"
  shows "\<exists>resp db'. workflow_POST ag env (Some v) db = (Inr resp, db') \<and>
           wr_processedUsers resp = length (normalize_userIds p) \<and>
           map wi_userId (wr_results resp) = normalize_userIds p \<and>
           (\<forall>u. story_version db' u =
                  (if u \<in> set (normalize_userIds p) then story_version db u + 1 else story_version db u))"
proof -
  have d: "distinct (normalize_userIds p)"
    by (simp add: normalize_userIds_def array_from_set_def set_add_all_remdups_first)
  have item: "\<forall>u c. cr_document c \<noteq> None \<longrightarrow> (\<exists>x. workflow_item u c = Inr x)"
    by (auto simp: workflow_item_def)
  obtain xs db' where run: "process_users ag env workflow_item (normalize_userIds p) db = (Inr xs, db')"
      and v: "\<forall>x. story_version db' x = (if x \<in> set (normalize_userIds p) then story_version db x + 1
                                            else story_version db x)"
    using process_users_total [OF wf d ans users item] by blast
  have "map wi_userId xs = normalize_userIds p"
    by (rule process_users_keys [OF run]) (auto simp: workflow_item_def split: option.splits)
  then show ?thesis using run v p ne by (simp add: workflow_POST_def)
qed

text \<open>C26 (partial batch). A webhook call that answers 500 leaves the database unchanged or in the state that successfully processing a proper prefix of the normalised users produces: the failing user's transaction is rolled back and the earlier users' stories stay committed.\<close>

theorem webhook_failure_keeps_prefix:
  assumes "webhook_POST ag env conf hdr body db = (ServerError e, db')"
  shows "db' = db \<or>
    (\<exists>j p. ag_json_parse ag body = Some j \<and> payload_parse j = Inr p \<and>
       (\<exists>k < length (normalize_userIds p). \<exists>xs.
          process_users ag env webhook_item (take k (normalize_userIds p)) db = (Inr xs, db')))"
proof -
  have item: "\<forall>u c. \<exists>x. webhook_item u c = Inr x" by (simp add: webhook_item_def)
  show ?thesis
    using assms process_users_prefix [OF _ item]
    by (auto simp: webhook_POST_def Let_def split: option.splits sum.splits prod.splits if_splits)
qed

text \<open>C27 (header guard). The webhook answers 403, changing nothing, exactly when some configured header is missing from the request or has another value.\<close>

theorem webhook_header_guard:
  "(\<exists>m. webhook_POST ag env conf hdr body db = (Forbidden m, db)) \<longleftrightarrow>
     (\<exists>(k, v) \<in> set conf. hdr k \<noteq> Some v)"
proof -
  have "header_mismatch conf hdr \<noteq> None \<longleftrightarrow> (\<exists>(k, v) \<in> set conf. hdr k \<noteq> Some v)"
    by (auto simp: header_mismatch_def find_None_iff)
  then show ?thesis
    by (auto simp: webhook_POST_def Let_def split: option.splits sum.splits prod.splits)
qed

text \<open>C28 (empty batch). The webhook answers 400 exactly when the headers match, the body parses and passes the schema, and no non-empty user id remains after normalisation.\<close>

theorem webhook_bad_request:
  "(\<exists>m. fst (webhook_POST ag env conf hdr body db) = BadRequest m) \<longleftrightarrow>
     header_mismatch conf hdr = None \<and>
     (\<exists>j p. ag_json_parse ag body = Some j \<and> payload_parse j = Inr p \<and> normalize_userIds p = [])"
  by (auto simp: webhook_POST_def Let_def split: option.splits sum.splits prod.splits)

end
