(* ===== verification/Story_Examples.thy ===== *)
theory Story_Examples
  imports Story_Routes
begin

text \<open>
  Concrete runs of the model, taken from the repository's own tests
  (\<open>packages/database/src/models/userMemory/__tests__/story.test.ts\<close>): a user's
  first story with diff content, then a second story without any. Each closed
  theorem below applies one property of the component theories at these inputs,
  with every definition evaluated by the simplifier.
\<close>

definition ex_db0 :: story_db where
  "ex_db0 = \<lparr>db_users = [''story-user''], db_documents = [], db_diffs = [],
             db_next_id = 0, db_now = 100\<rparr>"

definition ex_first :: upsert_params where
  "ex_first = \<lparr>up_capturedAt = None, up_diff = Some ''- added intro'', up_memoryIds = Some [''mem-1''],
     up_metadata = None, up_reasoning = Some ''First draft'', up_snapshot = Some ''# Story'',
     up_sourceIds = Some [''src-1''], up_story = ''# Story'', up_summary = Some ''Initial summary'',
     up_title = Some ''User Story''\<rparr>"

definition ex_second :: upsert_params where
  "ex_second = \<lparr>up_capturedAt = None, up_diff = None, up_memoryIds = None, up_metadata = None,
     up_reasoning = None, up_snapshot = None, up_sourceIds = None, up_story = ''# v2'',
     up_summary = None, up_title = Some ''User Story''\<rparr>"

definition ex_db1 :: story_db where
  "ex_db1 = snd (projr (upsertStory ''story-user'' ex_first ex_db0))"

definition ex_db2 :: story_db where
  "ex_db2 = snd (projr (upsertStory ''story-user'' ex_second ex_db1))"

text \<open>
  The extractor, service and route runs: a runtime that answers every call with the
  arguments of the extractor's own test, a user with one memory, and a webhook batch
  whose second user the runtime fails.
\<close>

definition ex_args :: json where
  "ex_args = JObj [(''story'', JStr ''# Story''), (''diff'', JStr ''- added intro''), (''extra'', JNum 1)]"

definition ex_res :: extraction_result where
  "ex_res = \<lparr>er_diff = Some ''- added intro'', er_memoryIds = None, er_reasoning = None,
     er_sourceIds = None, er_story = ''# Story'', er_summary = None\<rparr>"

definition ex_json_parse :: "string \<Rightarrow> json option" where
  "ex_json_parse s =
     (if s = ''{}'' then Some (JObj [])
      else if s = ''ARGS'' then Some ex_args
      else if s = ''A'' then Some (JObj [(''story'', JStr ''The story of the user'')])
      else if s = ''BODY'' then Some (JObj [(''userId'', JStr ''story-user'')])
      else if s = ''BODY2'' then Some (JObj [(''userIds'', JArr [JStr ''story-user'', JStr ''second-user''])])
      else None)"

definition ex_agent :: story_agent where
  "ex_agent = \<lparr>ag_render = (\<lambda>_. ''system''),
     ag_runtime = (\<lambda>u msgs tools. JArr [JObj [(''name'', JStr ''commit_user_story''), (''arguments'', JStr ''ARGS'')]]),
     ag_json_parse = ex_json_parse, ag_preferredLanguage = None\<rparr>"

definition ex_opts :: template_props where
  "ex_opts = \<lparr>tp_existingStory = Some ''# About User'', tp_language = Some ''English'',
     tp_recentEvents = Some ''- Event 1'', tp_retrievedMemories = Some ''- mem'',
     tp_storyNotes = Some ''- note'', tp_userProfile = Some ''- profile'', tp_username = Some ''User'',
     tp_additionalMessages = []\<rparr>"

definition ex_payload :: story_payload where
  "ex_payload = \<lparr>pl_existingStory = None, pl_language = None, pl_memoryIds = None, pl_metadata = None,
     pl_recentEvents = None, pl_retrievedMemories = None, pl_sourceIds = None, pl_storyNotes = None,
     pl_userId = ''story-user'', pl_userProfile = None, pl_username = Some ''Ada''\<rparr>"

definition ex_env :: memory_env where
  "ex_env = \<lparr>me_memories = [\<lparr>um_id = ''mem-1'', um_userId = ''story-user'', um_capturedAt = Some 50,
       um_title = Some ''Likes tea'', um_summary = None, um_details = Some ''Green tea''\<rparr>],
     me_isoString = (\<lambda>_. ''1970-01-01T00:00:00.050Z''), me_contextXml = (\<lambda>_. []),
     me_identityXml = (\<lambda>_. [])\<rparr>"

definition ex_agent2 :: story_agent where
  "ex_agent2 = ex_agent\<lparr>ag_runtime := (\<lambda>u msgs tools.
      if u = ''story-user'' then ag_runtime ex_agent u msgs tools else JArr [])\<rparr>"

definition ex_dbU :: story_db where
  "ex_dbU = ex_db0\<lparr>db_users := [''story-user'', ''second-user'']\<rparr>"

lemma ex_run1:
  "upsertStory ''story-user'' ex_first ex_db0 =
     Inr (fst (projr (upsertStory ''story-user'' ex_first ex_db0)), ex_db1)"
  by (simp add: ex_db1_def) code_simp

lemma ex_run2:
  "upsertStory ''story-user'' ex_second ex_db1 =
     Inr (fst (projr (upsertStory ''story-user'' ex_second ex_db1)), ex_db2)"
  by (simp add: ex_db2_def) code_simp

lemma ex_db0_wf: "story_db_wf ex_db0"
  by code_simp

lemma ex_db1_wf: "story_db_wf ex_db1"
  by code_simp

lemma ex_db1_reachable: "story_reachable ex_db1"
proof -
  let ?pre = "ex_db0\<lparr>db_users := []\<rparr>"
  have init: "story_init ?pre" by (simp add: story_init_def ex_db0_def)
  have s1: "story_step ?pre ex_db0"
    using story_step.add_user [of "''story-user''" ?pre] by (simp add: insert_user_def ex_db0_def)
  have s2: "story_step ex_db0 ex_db1" by (rule story_step.upsert [OF ex_run1])
  have "story_step\<^sup>*\<^sup>* ?pre ex_db1" using s1 s2 by auto
  with init show ?thesis unfolding story_reachable_def by blast
qed

lemma ex_db1_diffs: "db_diffs ex_db1 \<noteq> []"
  by code_simp

lemma ex_db1_docs: "db_documents ex_db1 \<noteq> []"
  by code_simp

theorem reachable_diff_versions_unique_witness:
  "hd (db_diffs ex_db1) = hd (db_diffs ex_db1) \<and>
   (\<exists>v. diff_nextVersion (hd (db_diffs ex_db1)) = Some v \<and>
        diff_previousVersion (hd (db_diffs ex_db1)) = (if v = 1 then None else Some (v - 1)))"
proof -
  have m: "hd (db_diffs ex_db1) \<in> set (db_diffs ex_db1)" using ex_db1_diffs by simp
  show ?thesis by (rule reachable_diff_versions_unique [OF ex_db1_reachable m m refl refl])
qed

theorem reachable_one_document_per_user_witness:
  "hd (db_documents ex_db1) = hd (db_documents ex_db1) \<and>
   (\<exists>u. doc_userId (hd (db_documents ex_db1)) = Some u \<and> u \<in> set (db_users ex_db1)) \<and>
   1 \<le> doc_version (hd (db_documents ex_db1)) \<and> doc_version (hd (db_documents ex_db1)) \<le> int4_max"
proof -
  have m: "hd (db_documents ex_db1) \<in> set (db_documents ex_db1)" using ex_db1_docs by simp
  show ?thesis by (rule reachable_one_document_per_user [OF ex_db1_reachable m m refl])
qed

theorem upsertStory_commits_witness:
  "\<exists>d. res_document (fst (projr (upsertStory ''story-user'' ex_first ex_db0))) = Some d \<and>
       find_user_document ''story-user'' ex_db1 = Some d \<and>
       doc_version d = next_version (find_user_document ''story-user'' ex_db0) \<and>
       doc_story d = Some (up_story ex_first)"
  by (rule upsertStory_commits [OF ex_db0_wf ex_run1])

theorem upsertStory_preserves_wf_witness: "story_db_wf ex_db1"
  by (rule upsertStory_preserves_wf [OF ex_db0_wf ex_run1])

theorem upsertStory_error_iff_witness:
  "(\<exists>err. upsertStory ''nobody'' ex_first ex_db0 = Inl err) \<and> upsert_fails ''nobody'' ex_first ex_db0"
proof -
  have "upsert_fails ''nobody'' ex_first ex_db0"
    by (simp add: upsert_fails_def ex_db0_def find_user_document_def)
  with upsertStory_error_iff [OF ex_db0_wf] show ?thesis by blast
qed

theorem upsertStory_diff_record_witness:
  "res_diff (fst (projr (upsertStory ''story-user'' ex_first ex_db0))) \<noteq> None \<and>
   db_diffs ex_db1 = db_diffs ex_db0 @
     (case res_diff (fst (projr (upsertStory ''story-user'' ex_first ex_db0))) of None \<Rightarrow> [] | Some f \<Rightarrow> [f])"
proof -
  have h: "has_diff ex_first" by (simp add: has_diff_def ex_first_def)
  from upsertStory_diff_record [OF ex_db0_wf ex_run1] h show ?thesis by simp
qed

theorem upsertStory_refines_witness:
  "story_abs ex_db1 = abs_commit ''story-user'' ''# Story'' (story_abs ex_db0)"
  using upsertStory_refines [OF ex_db0_wf ex_run1] by (simp add: ex_first_def)

theorem getLatestStoryDocument_eq_find_witness:
  "getLatestStoryDocument ''story-user'' ex_db1 = find_user_document ''story-user'' ex_db1"
  by (rule getLatestStoryDocument_eq_find [OF ex_db1_wf])

theorem listDiffs_newest_first_witness:
  "length (listDiffs ''story-user'' 50 ex_db1) = 1 \<and>
   diff_userId (hd (listDiffs ''story-user'' 50 ex_db1)) = Some ''story-user''"
proof -
  have n: "length (filter (\<lambda>d. diff_userId d = Some ''story-user'') (db_diffs ex_db1)) = 1"
    by code_simp
  from listDiffs_newest_first [of "''story-user''" 50 ex_db1] n
  have "length (listDiffs ''story-user'' 50 ex_db1) = 1"
    and all: "\<forall>d \<in> set (listDiffs ''story-user'' 50 ex_db1). diff_userId d = Some ''story-user''"
    by simp_all
  moreover from this(1) have "hd (listDiffs ''story-user'' 50 ex_db1) \<in> set (listDiffs ''story-user'' 50 ex_db1)"
    by (cases "listDiffs ''story-user'' 50 ex_db1") auto
  ultimately show ?thesis by blast
qed

theorem upsertStory_update_keeps_omitted_witness:
  "doc_summary (the (res_document (fst (projr (upsertStory ''story-user'' ex_second ex_db1))))) =
     Some ''Initial summary'' \<and>
   doc_story (the (res_document (fst (projr (upsertStory ''story-user'' ex_second ex_db1))))) =
     Some ''# v2''"
proof -
  have ex: "find_user_document ''story-user'' ex_db1 = Some (hd (db_documents ex_db1))"
    by code_simp
  have d: "res_document (fst (projr (upsertStory ''story-user'' ex_second ex_db1))) =
           Some (the (res_document (fst (projr (upsertStory ''story-user'' ex_second ex_db1)))))"
    by code_simp
  have sum: "doc_summary (hd (db_documents ex_db1)) = Some ''Initial summary''" by code_simp
  have st: "doc_story (the (res_document (fst (projr (upsertStory ''story-user'' ex_second ex_db1))))) =
            Some ''# v2''" by code_simp
  from upsertStory_update_keeps_omitted [OF ex_db1_wf ex ex_run2 d] sum st show ?thesis
    by (simp add: ex_second_def)
qed

lemma ex_args_parse: "resultSchema_parse ex_args = Inr ex_res"
  by (simp add: ex_args_def ex_res_def resultSchema_parse_def zod_optional_def zod_required_def obj_lookup_def)

theorem resultSchema_parse_typed_witness:
  "\<exists>kvs. ex_args = JObj kvs \<and>
     (\<forall>k. js_get (result_json ex_res) k = (if k \<in> set result_keys then obj_lookup kvs k else None))"
  by (rule resultSchema_parse_typed [OF ex_args_parse])

lemma ex_agent_answer:
  "tool_result ex_json_parse (ag_runtime ex_agent u msgs tools) = Inr ex_res"
proof -
  have "js_truthy ex_args" by (simp add: ex_args_def)
  then show ?thesis
    by (simp add: ex_agent_def tool_result_def ex_json_parse_def ex_args_parse obj_lookup_def js_or_def)
qed

theorem toolCall_ok_iff_witness:
  "toolCall (ag_render ex_agent) (ag_runtime ex_agent ''story-user'') ex_json_parse ex_opts = Inr ex_res"
proof -
  have "ex_json_parse [] = None" "ex_json_parse ''{}'' = Some (JObj [])"
    by (simp_all add: ex_json_parse_def)
  moreover have "ag_runtime ex_agent ''story-user'' (tool_messages (ag_render ex_agent) ex_opts) getTools =
      JArr [JObj [(''name'', JStr ''commit_user_story''), (''arguments'', JStr ''ARGS'')]]"
    by (simp add: ex_agent_def)
  ultimately show ?thesis
    using toolCall_ok_iff [of ex_json_parse "ag_runtime ex_agent ''story-user''" "ag_render ex_agent" ex_opts]
    by (simp add: ex_json_parse_def ex_args_parse obj_lookup_def)
qed

theorem toolCall_missing_arguments_witness:
  "toolCall (\<lambda>_. ''system'') (\<lambda>_ _. JArr []) ex_json_parse ex_opts = Inl (ZodError ''story'')"
  using toolCall_missing_arguments [of ex_json_parse "\<lambda>_ _. JArr []" "\<lambda>_. ''system''" ex_opts "[]"]
  by (simp add: ex_json_parse_def)

theorem generatePrompt_agrees_witness:
  "generatePrompt (\<lambda>_. ''system'') ex_opts = tool_messages (\<lambda>_. ''system'') ex_opts"
  by (rule generatePrompt_agrees) (simp_all add: ex_opts_def js_trim_def js_ws_def)

theorem generatePrompt_blank_story_witness:
  "buildUserPrompt (ex_opts\<lparr>tp_existingStory := Some '' ''\<rparr>) =
     ''## Existing Story (baseline)'' @ nl2 @ ''No existing story provided.'' @ nl2 @
     js_join nl2 (drop 2 (prompt_sections str_or (ex_opts\<lparr>tp_existingStory := Some '' ''\<rparr>))) \<and>
   eval_userSections (ex_opts\<lparr>tp_existingStory := Some '' ''\<rparr>) =
     ''## Existing Story (baseline)'' @ nl2 @ '' '' @ nl2 @
     js_join nl2 (drop 2 (prompt_sections str_or (ex_opts\<lparr>tp_existingStory := Some '' ''\<rparr>)))"
  by (rule generatePrompt_blank_story [of _ "'' ''"]) (simp_all add: ex_opts_def js_ws_def js_trim_def)

theorem eval_accepts_extracted_story_witness:
  "eval_toolCallAssert ex_json_parse
     (JArr [JObj [(''name'', JStr ''commit_user_story''), (''arguments'', JStr ''A'')]])"
proof (rule eval_accepts_extracted_story)
  show "tool_result ex_json_parse (JArr [JObj [(''name'', JStr ''commit_user_story''), (''arguments'', JStr ''A'')]]) =
      Inr \<lparr>er_diff = None, er_memoryIds = None, er_reasoning = None, er_sourceIds = None,
           er_story = ''The story of the user'', er_summary = None\<rparr>"
    by (simp add: ex_json_parse_def tool_result_def js_or_def resultSchema_parse_def zod_optional_def
        zod_required_def obj_lookup_def)
qed (simp_all add: ex_json_parse_def obj_lookup_def js_length_def utf8_length_def js_trim_def js_ws_def)

lemma ex_agent_parse [simp]: "ag_json_parse ex_agent = ex_json_parse" "ag_json_parse ex_agent2 = ex_json_parse"
  by (simp_all add: ex_agent_def ex_agent2_def)

lemma ex_agent_toolCall:
  "toolCall (ag_render ex_agent) (ag_runtime ex_agent u) (ag_json_parse ex_agent) opts = Inr ex_res"
  by (simp add: toolCall_def ex_agent_answer)


lemma ex_compose:
  "composeStory ex_agent ex_payload ex_db0 =
     Inr (fst (projr (composeStory ex_agent ex_payload ex_db0)), snd (projr (composeStory ex_agent ex_payload ex_db0)))"
  by (simp add: composeStory_agent [OF ex_agent_toolCall]) code_simp

theorem composeStory_persists_witness:
  "\<exists>d. cr_document (fst (projr (composeStory ex_agent ex_payload ex_db0))) = Some d \<and>
     find_user_document ''story-user'' (snd (projr (composeStory ex_agent ex_payload ex_db0))) = Some d \<and>
     doc_story d = Some ''# Story'' \<and> doc_title d = Some ''User Story for Ada'' \<and> doc_version d = 1 \<and>
     (\<exists>f. cr_diff (fst (projr (composeStory ex_agent ex_payload ex_db0))) = Some f \<and>
          db_diffs (snd (projr (composeStory ex_agent ex_payload ex_db0))) = [f] \<and>
          diff_snapshot f = Some ''# Story'')"
proof -
  obtain r res where t: "toolCall (ag_render ex_agent) (ag_runtime ex_agent (pl_userId ex_payload)) (ag_json_parse ex_agent)
        (story_options (ag_preferredLanguage ex_agent) ex_payload) = Inr r"
      and "upsertStory (pl_userId ex_payload) (compose_params ex_payload r (db_now ex_db0)) ex_db0 =
        Inr (res, snd (projr (composeStory ex_agent ex_payload ex_db0)))"
      and c: "fst (projr (composeStory ex_agent ex_payload ex_db0)) =
        \<lparr>cr_agentResult = r, cr_diff = res_diff res, cr_document = res_document res\<rparr>"
    by (rule composeStory_Inr [OF ex_compose])
  have "r = ex_res" using t ex_agent_toolCall by simp
  then have r: "er_story (cr_agentResult (fst (projr (composeStory ex_agent ex_payload ex_db0)))) = ''# Story''"
    using c by (simp add: ex_res_def)
  have u: "pl_userId ex_payload = ''story-user''" and n: "find_user_document ''story-user'' ex_db0 = None"
    and ti: "story_title ex_payload = ''User Story for Ada''" and e: "db_diffs ex_db0 = []"
    by (simp_all add: ex_payload_def find_user_document_def ex_db0_def story_title_def)
  have tk: "utf8_take 255 ''User Story for Ada'' = ''User Story for Ada''"
    by (simp add: utf8_cont_def)
  show ?thesis
    using composeStory_persists [OF ex_db0_wf ex_compose] unfolding r u n ti e tk
    by (simp add: next_version_def)
qed

lemma ex_job_compose:
  "composeStory ex_agent (job_payload (buildUserStoryJobInput ex_env ''story-user'' ex_db0) ''story-user'') ex_db0 =
     Inr (fst (projr (composeStory ex_agent (job_payload (buildUserStoryJobInput ex_env ''story-user'' ex_db0) ''story-user'') ex_db0)),
          snd (projr (composeStory ex_agent (job_payload (buildUserStoryJobInput ex_env ''story-user'' ex_db0) ''story-user'') ex_db0)))"
  by (simp add: composeStory_agent [OF ex_agent_toolCall]) code_simp

theorem job_composeStory_memoryIds_witness:
  "\<exists>d. cr_document (fst (projr (composeStory ex_agent (job_payload (buildUserStoryJobInput ex_env ''story-user'' ex_db0) ''story-user'') ex_db0))) = Some d \<and>
     doc_memoryIds d = Some [''mem-1'']"
proof -
  have m: "map um_id (recent_memories ex_env ''story-user'') = [''mem-1'']"
    by (simp add: recent_memories_def ex_env_def)
  show ?thesis
    using job_composeStory_memoryIds [OF ex_db0_wf ex_job_compose] unfolding m by blast
qed

lemma ex_story_version0: "story_version ex_db0 u = 0"
  by (simp add: story_version_def story_abs_def find_user_document_def ex_db0_def)

theorem workflow_processes_every_user_witness:
  "\<exists>resp db'. workflow_POST ex_agent ex_env (Some (JObj [(''userId'', JStr ''story-user'')])) ex_db0 = (Inr resp, db') \<and>
     wr_processedUsers resp = 1 \<and> map wi_userId (wr_results resp) = [''story-user''] \<and>
     story_version db' ''story-user'' = 1"
proof -
  let ?p = "\<lparr>rp_userId = Some ''story-user'', rp_userIds = None\<rparr>"
  have p: "payload_parse (js_or (JObj [(''userId'', JStr ''story-user'')]) (JObj [])) = Inr ?p"
    by (simp add: payload_parse_def js_or_def zod_optional_def obj_lookup_def)
  have n: "normalize_userIds ?p = [''story-user'']"
    by (simp add: normalize_userIds_def array_from_set_def)
  have ans: "\<forall>u msgs. \<exists>r. tool_result (ag_json_parse ex_agent) (ag_runtime ex_agent u msgs getTools) = Inr r"
    using ex_agent_answer by simp
  have users: "\<forall>u \<in> set (normalize_userIds ?p). u \<in> set (db_users ex_db0) \<and> story_version ex_db0 u < int4_max"
  proof -
    have "story_version ex_db0 ''story-user'' < int4_max" by (simp add: ex_story_version0 int4_max_def)
    moreover have "''story-user'' \<in> set (db_users ex_db0)" by (simp add: ex_db0_def)
    ultimately show ?thesis unfolding n by simp
  qed
  have ne: "normalize_userIds ?p \<noteq> []" unfolding n by simp
  obtain resp db' where w: "workflow_POST ex_agent ex_env (Some (JObj [(''userId'', JStr ''story-user'')])) ex_db0 =
        (Inr resp, db')"
      and l: "wr_processedUsers resp = length (normalize_userIds ?p)"
      and m: "map wi_userId (wr_results resp) = normalize_userIds ?p"
      and v: "\<forall>u. story_version db' u = (if u \<in> set (normalize_userIds ?p) then story_version ex_db0 u + 1
                                           else story_version ex_db0 u)"
    using workflow_processes_every_user [OF ex_db0_wf p ne ans users] by blast
  have "story_version db' ''story-user'' = 1" using v unfolding n by (simp add: ex_story_version0)
  then show ?thesis using w l m unfolding n by auto
qed

lemma ex_webhook_run:
  "webhook_POST ex_agent2 ex_env [] (\<lambda>_. None) ''BODY2'' ex_dbU =
     (ServerError (ZodError ''story''), snd (webhook_POST ex_agent2 ex_env [] (\<lambda>_. None) ''BODY2'' ex_dbU))"
  by code_simp

theorem webhook_failure_keeps_prefix_witness:
  "fst (webhook_POST ex_agent2 ex_env [] (\<lambda>_. None) ''BODY2'' ex_dbU) = ServerError (ZodError ''story'') \<and>
   (snd (webhook_POST ex_agent2 ex_env [] (\<lambda>_. None) ''BODY2'' ex_dbU) = ex_dbU \<or>
    (\<exists>j p. ag_json_parse ex_agent2 ''BODY2'' = Some j \<and> payload_parse j = Inr p \<and>
       (\<exists>k < length (normalize_userIds p). \<exists>xs.
          process_users ex_agent2 ex_env webhook_item (take k (normalize_userIds p)) ex_dbU =
            (Inr xs, snd (webhook_POST ex_agent2 ex_env [] (\<lambda>_. None) ''BODY2'' ex_dbU)))))"
  using webhook_failure_keeps_prefix [OF ex_webhook_run] ex_webhook_run by (metis fst_conv)

theorem webhook_header_guard_witness:
  "\<exists>m. webhook_POST ex_agent ex_env [(''x-token'', ''secret'')] (\<lambda>_. None) ''BODY'' ex_db0 = (Forbidden m, ex_db0)"
  using webhook_header_guard [of ex_agent ex_env "[(''x-token'', ''secret'')]" "\<lambda>_. None" "''BODY''" ex_db0]
  by simp

theorem webhook_bad_request_witness:
  "\<exists>m. fst (webhook_POST ex_agent ex_env [] (\<lambda>_. None) ''{}'' ex_db0) = BadRequest m"
proof -
  have "payload_parse (JObj []) = Inr \<lparr>rp_userId = None, rp_userIds = None\<rparr>"
    by (simp add: payload_parse_def zod_optional_def)
  moreover have "normalize_userIds \<lparr>rp_userId = None, rp_userIds = None\<rparr> = []"
    by (simp add: normalize_userIds_def array_from_set_def)
  ultimately show ?thesis
    using webhook_bad_request [of ex_agent ex_env "[]" "\<lambda>_. None" "''{}''" ex_db0]
    by (simp add: header_mismatch_def ex_json_parse_def)
qed

end
