(* ===== verification/Spec2Isabelle.thy ===== *)
theory Spec2Isabelle
  imports Story_Examples
begin

text \<open>
  \<^bold>\<open>A verification library for the user-story feature.\<close>

  \<^medskip>
  \<^bold>\<open>The program.\<close> The feature keeps one versioned Markdown "story" per user.
  \<open>UserStoryExtractor\<close> (\<open>packages/memory-user-memory/src/extractors/story.ts\<close>)
  asks a language model, through the \<open>commit_user_story\<close> tool, for a new story and
  parses the tool arguments with a zod schema. \<open>UserStoryService.composeStory\<close>
  (\<open>src/server/services/memory/userStory/service.ts\<close>) calls the extractor and
  persists the answer with \<open>UserStoryModel.upsertStory\<close>
  (\<open>packages/database/src/models/userMemory/story.ts\<close>). That is one transaction on
  the two tables of \<open>packages/database/src/schemas/userMemories/story.ts\<close>: it bumps
  the user's document to the next version and may append a diff row.
  \<open>buildUserStoryJobInput\<close> gathers the inputs of a run: the latest story, the 20
  newest memories and the context providers' XML. Two routes run the service over a
  batch of users, one after the other: the Upstash workflow
  \<open>app/(backend)/api/workflows/user-story/process/route.ts\<close> and the header-guarded
  webhook \<open>app/(backend)/api/webhooks/user-story/route.ts\<close>. The promptfoo evaluation
  (\<open>promptfoo/evals/story/prompt.ts\<close> and \<open>tests/cases.ts\<close>) rebuilds the prompt and
  checks the model's tool calls.

  \<^medskip>
  \<^bold>\<open>The theories.\<close>
  \<^item> \<open>Story_Prelude\<close> holds the shared vocabulary. It has the error type (database
    errors, \<open>TypeError\<close>, \<open>ZodError\<close>, \<open>SyntaxError\<close>) and \<open>sbind\<close>, the bind of
    the result type \<open>error + 'a\<close>. It has JSON values, the JavaScript operators
    \<open>??\<close> and \<open>||\<close> and truthiness, \<open>trim\<close>, \<open>join\<close>, UTF-8 and UTF-16 lengths,
    and \<open>Array.from(new Set(xs))\<close> with its reference \<open>remdups_first\<close>.
  \<^item> \<open>Story_Schema\<close> models the two tables as records (\<open>story_document\<close>,
    \<open>story_diff\<close>) and the database state \<open>story_db\<close>, with the users table, an id
    counter standing for \<open>createNanoId\<close>, and the clock. Its row primitives
    (\<open>insert_document\<close>, \<open>update_documents\<close>, \<open>insert_diff\<close>, \<open>delete_user\<close>)
    check the schema's constraints: \<open>varchar(255)\<close>, 32-bit \<open>integer\<close>, the foreign
    keys, the unique index on \<open>user_id\<close> and \<open>ON DELETE CASCADE\<close>. Inserts and
    updates return the row as stored (\<open>store_document\<close>), as \<open>RETURNING\<close> does.
  \<^item> \<open>Story_Model\<close> models \<open>UserStoryModel\<close>: \<open>getLatestStoryDocument\<close>,
    \<open>listDiffs\<close>, \<open>appendDiff\<close> and \<open>upsertStory\<close>. \<open>upsertStory\<close> is composed of
    \<open>write_document\<close> (the update or insert branch) and \<open>append_story_diff\<close> (the
    \<open>hasDiff\<close> branch). An error value is a rolled-back transaction. The theory
    defines the table invariant \<open>story_db_wf\<close>, the step relation \<open>story_step\<close>
    (upserts, user inserts, cascading user deletes, clock ticks) with
    \<open>story_reachable\<close>, and the abstract store \<open>story_abs\<close>/\<open>abs_commit\<close>.
  \<^item> \<open>Story_Extractor\<close> models the extractor. It has \<open>resultSchema_parse\<close> (zod), the
    tool \<open>commit_user_story\<close> with JSON Schema validation \<open>schema_accepts\<close>,
    \<open>buildUserPrompt\<close>, the messages and the answer handling of \<open>toolCall\<close>. The
    evaluation's \<open>generatePrompt\<close> and its tool-call assertion
    \<open>eval_toolCallAssert\<close> are here too.
  \<^item> \<open>Story_Service\<close> models \<open>composeStory\<close>, which runs \<open>toolCall\<close> and then
    \<open>upsertStory\<close>, and \<open>buildUserStoryJobInput\<close>.
  \<^item> \<open>Story_Routes\<close> models \<open>payload_parse\<close>, \<open>normalize_userIds\<close>, the batch loop
    \<open>process_users\<close> (shared by both routes), \<open>workflow_POST\<close> and \<open>webhook_POST\<close>.
  \<^item> \<open>Story_Examples\<close> evaluates concrete runs taken from the repository's tests.
    It holds the witness of every property with hypotheses, proved by applying
    the property there.

  \<^medskip>
  \<^bold>\<open>What is proved.\<close>
  \<^item> The tables, C1 to C10 (\<open>Story_Model\<close>). Every reachable state records each
    story version at most once and links each diff to the previous version (C1).
    It holds one document per existing user with a version in range (C2).
    \<open>upsertStory\<close> commits the next version with the given story (C3), keeps the
    invariant (C4) and fails exactly on a title that does not fit \<open>varchar(255)\<close>, a
    missing user or version overflow (C5). It appends a diff exactly under
    \<open>hasDiff\<close> (C6) and refines the abstract store (C7). On update it replaces the
    story, bumps the version and keeps the omitted fields (C8). The read queries
    agree with the upsert's lookup (C9) and order diffs newest first (C10).
  \<^item> The extractor, C11 to C19 (\<open>Story_Extractor\<close>). A
    result survives the round trip through its JSON form (C11). The tool's JSON
    Schema and zod accept the same arguments (C12). A parse keeps exactly the
    shape's members (C13). C14 and C15 give the success and error cases of
    \<open>toolCall\<close>. Prompt sections are non-empty and trimmed (C16). The evaluation
    prompt agrees on trimmed inputs (C17). On a blank existing story it differs in
    exactly the baseline section (C18). The evaluation's assertion accepts every
    flat answer the extractor accepts whose story is long enough (C19); the
    converse fails, which the findings record.
  \<^item> The service, C20 to C23 (\<open>Story_Service\<close>). A title fails exactly for names that do
    not fit \<open>varchar(240)\<close> (C20). What \<open>composeStory\<close> persists is given by C21. The routes
    never store the agent's memory ids (C22). C23 bounds the job input.
  \<^item> The routes, C24 to C28 (\<open>Story_Routes\<close>). Id normalisation is deduplication
    (C24). The workflow processes every user when the runtime and the data allow
    it (C25). A 500 from the webhook leaves exactly a committed prefix (C26). The
    header guard (C27) and the empty batch (C28) give its 403 and 400 answers.

  \<^medskip>
  \<^bold>\<open>Modelling choices and bounds.\<close>
  \<^item> Strings are byte lists. \<open>varchar(255)\<close> counts code points (\<open>utf8_length\<close>),
    \<open>.length\<close> counts UTF-16 units (\<open>js_length\<close>), and \<open>trim\<close> removes the ASCII
    white space.
  \<^item> \<open>varchar(n)\<close> follows PostgreSQL's assignment rule (\<open>varchar_fits\<close>): a longer
    value is an error unless every code point past the first \<open>n\<close> is a space, and
    then it is cut to \<open>n\<close> code points (\<open>store_title\<close>, with \<open>utf8_take\<close>).
  \<^item> Versions are unbounded integers. The 32-bit column is a check of the insert
    and update, so overflow is an error value (C5) and no wrap-around occurs.
  \<^item> The language model is an oracle \<open>ag_runtime u\<close>, indexed by the user a call is
    made for. The template engine and \<open>JSON.parse\<close> are parameters. Every theorem
    holds for all of them, or for those its hypotheses name (C14, C15).
  \<^item> There are no loops that need fuel. \<open>process_users\<close> and the list functions are
    structural recursion, and \<open>schema_accepts\<close> recurses on the schema, so each
    definition is total and evaluates by \<open>simp\<close> or \<open>code_simp\<close>.
  \<^item> Concurrency is not modelled. The routes are sequential, and each transaction is
    one atomic step of \<open>story_step\<close>.

  \<^medskip>
  \<^bold>\<open>Not modelled.\<close>
  \<^item> The drizzle ORM and PostgreSQL beyond the declared constraints.
  \<^item> \<open>renderPlaceholderTemplate\<close> and the prompt text \<open>userStoryPrompt\<close>, which lie
    outside \<open>src\<close>.
  \<^item> \<open>ModelRuntime\<close>, \<open>parseMemoryExtractionConfig\<close> and \<open>getServerDB\<close>.
  \<^item> \<open>UserMemoryModel\<close> and the context providers, which are read only, through
    \<open>memory_env\<close>.
  \<^item> The Upstash \<open>serve\<close> wrapper and Next.js, including its response encoding.
  \<^item> promptfoo's built-in assertions, and logging.
  \<^item> \<open>getPrompt\<close>, \<open>getPromptName\<close> and \<open>getSchema\<close>, which return constants, and
    \<open>structuredCall\<close>, which delegates to \<open>toolCall\<close>.
\<close>

end
